theory Spec2Isabelle
  imports Complex_Main "HOL-Library.Char_ord" "HOL-Library.List_Lexorder"
begin

section \<open>Conventions\<close>

text \<open>
  A shallow embedding of the air-traffic-control simulator (package \<open>atc_simulator\<close>:
  \<open>aircraft.py\<close>, \<open>airspace.py\<close>, \<open>atc_system.py\<close>, \<open>safety_evaluator.py\<close>).

  \<^item> Python \<open>float\<close> values are modelled as \<^typ>\<open>real\<close>: rounding, signed zeros and NaN are
    outside the model. \<open>float('inf')\<close> is the extra value \<open>PInf\<close> of the type \<open>xreal\<close>.
  \<^item> Objects that the code mutates in place are records that the functions return updated.
    The aircraft of an aircraft list are addressed by their index in the list, the
    violation records shared between the history and the active map by their index
    in the history.
  \<^item> A method \<open>_name\<close> of the source is the constant \<open>name\<close> here (an identifier
    cannot start with an underscore). Record fields are constants too: where two classes
    share a field name, or a field is called like a function, the field has a prefix
    (\<open>pos_\<close>, \<open>wp_\<close>, \<open>i_\<close>, \<open>v_\<close>, \<open>nm_\<close>, \<open>se_\<close>).
\<close>

section \<open>aircraft.py\<close>

datatype AircraftStatus = TAXIING | DEPARTING | ENROUTE | ARRIVING | LANDED

record Position =
  pos_x :: real
  pos_y :: real
  pos_altitude :: real

record Velocity =
  speed :: real
  heading :: real

record Waypoint =
  wp_name :: string
  wp_x :: real
  wp_y :: real
  wp_altitude :: "real option"

record Aircraft =
  callsign :: string
  position :: Position
  velocity :: Velocity
  flight_plan :: "Waypoint list"
  aircraft_type :: string
  status :: AircraftStatus
  target_altitude :: "real option"
  target_heading :: "real option"
  target_speed :: "real option"
  current_waypoint_index :: nat
  time_in_simulation :: real

text \<open>\<open>Aircraft.__init__\<close>: no pending target, cursor at the first waypoint.\<close>

definition mk_Aircraft ::
  "string \<Rightarrow> Position \<Rightarrow> Velocity \<Rightarrow> Waypoint list \<Rightarrow> string \<Rightarrow> AircraftStatus \<Rightarrow> Aircraft" where
  "mk_Aircraft cs p v fp ty st =
     \<lparr>callsign = cs, position = p, velocity = v, flight_plan = fp, aircraft_type = ty,
      status = st, target_altitude = None, target_heading = None, target_speed = None,
      current_waypoint_index = 0, time_in_simulation = 0\<rparr>"

definition MAX_CLIMB_RATE :: real where "MAX_CLIMB_RATE = 2000"
definition MAX_DESCENT_RATE :: real where "MAX_DESCENT_RATE = 2000"
definition MAX_TURN_RATE :: real where "MAX_TURN_RATE = 3"
definition MAX_SPEED_CHANGE :: real where "MAX_SPEED_CHANGE = 10"
definition MIN_ALTITUDE :: real where "MIN_ALTITUDE = 1000"
definition MAX_ALTITUDE :: real where "MAX_ALTITUDE = 45000"
definition MIN_SPEED :: real where "MIN_SPEED = 120"
definition MAX_SPEED :: real where "MAX_SPEED = 550"

lemmas limits_defs =
  MAX_CLIMB_RATE_def MAX_DESCENT_RATE_def MAX_TURN_RATE_def MAX_SPEED_CHANGE_def
  MIN_ALTITUDE_def MAX_ALTITUDE_def MIN_SPEED_def MAX_SPEED_def

subsection \<open>Library functions of Python\<close>

text \<open>\<open>a % m\<close> on floats, for a positive \<open>m\<close>: the result has the sign of \<open>m\<close>.\<close>

definition py_mod :: "real \<Rightarrow> real \<Rightarrow> real" where
  "py_mod a m = a - m * of_int \<lfloor>a / m\<rfloor>"

definition radians :: "real \<Rightarrow> real" where
  "radians d = d * pi / 180"

definition degrees :: "real \<Rightarrow> real" where
  "degrees r = r * 180 / pi"

text \<open>\<open>math.atan2(y, x)\<close>, the angle of the point \<open>(x, y)\<close> in \<open>(-pi, pi]\<close>.\<close>

definition atan2 :: "real \<Rightarrow> real \<Rightarrow> real" where
  "atan2 y x =
     (if 0 < x then arctan (y / x)
      else if x < 0 then (if 0 \<le> y then arctan (y / x) + pi else arctan (y / x) - pi)
      else if 0 < y then pi / 2
      else if y < 0 then - (pi / 2)
      else 0)"

text \<open>\<open>int(x)\<close> on a float truncates toward zero.\<close>

definition py_int :: "real \<Rightarrow> int" where
  "py_int r = (if 0 \<le> r then \<lfloor>r\<rfloor> else \<lceil>r\<rceil>)"

subsection \<open>Position and Velocity\<close>

definition distance_to :: "Position \<Rightarrow> Position \<Rightarrow> real" where
  "distance_to p q = sqrt ((pos_x p - pos_x q)\<^sup>2 + (pos_y p - pos_y q)\<^sup>2)"

definition vertical_separation :: "Position \<Rightarrow> Position \<Rightarrow> real" where
  "vertical_separation p q = \<bar>pos_altitude p - pos_altitude q\<bar>"

definition normalize_heading :: "Velocity \<Rightarrow> Velocity" where
  "normalize_heading v = v\<lparr>heading := py_mod (heading v) 360\<rparr>"

subsection \<open>The kinematic update\<close>

definition update_altitude :: "Aircraft \<Rightarrow> real \<Rightarrow> Aircraft" where
  "update_altitude a time_delta =
     (case target_altitude a of
        None \<Rightarrow>
          (if current_waypoint_index a < length (flight_plan a) then
             (case wp_altitude (flight_plan a ! current_waypoint_index a) of
                Some alt \<Rightarrow> a\<lparr>target_altitude := Some alt\<rparr>
              | None \<Rightarrow> a)
           else a)
      | Some tgt \<Rightarrow>
          (let altitude_diff = tgt - pos_altitude (position a) in
           if \<bar>altitude_diff\<bar> < 10 then
             a\<lparr>position := (position a)\<lparr>pos_altitude := tgt\<rparr>, target_altitude := None\<rparr>
           else
             (let max_change =
                    (if 0 < altitude_diff then MAX_CLIMB_RATE else MAX_DESCENT_RATE)
                      * (time_delta / 60);
                  a1 =
                    (if \<bar>altitude_diff\<bar> \<le> max_change then
                       a\<lparr>position := (position a)\<lparr>pos_altitude := tgt\<rparr>,
                         target_altitude := None\<rparr>
                     else
                       a\<lparr>position := (position a)\<lparr>pos_altitude :=
                            pos_altitude (position a)
                              + (if 0 < altitude_diff then max_change else - max_change)\<rparr>\<rparr>)
              in a1\<lparr>position := (position a1)\<lparr>pos_altitude :=
                      max MIN_ALTITUDE (min MAX_ALTITUDE (pos_altitude (position a1)))\<rparr>\<rparr>)))"

definition calculate_heading_to_waypoint :: "Aircraft \<Rightarrow> Waypoint \<Rightarrow> real" where
  "calculate_heading_to_waypoint a waypoint =
     (let dx = wp_x waypoint - pos_x (position a);
          dy = wp_y waypoint - pos_y (position a);
          angle_rad = atan2 dx dy;
          hdg = degrees angle_rad
      in py_mod hdg 360)"

text \<open>The two \<open>while\<close> loops of \<open>_shortest_heading_difference\<close>.\<close>

function diff_down :: "real \<Rightarrow> real" where
  "diff_down d = (if 180 < d then diff_down (d - 360) else d)"
  by pat_completeness auto
termination
proof (relation "measure (\<lambda>d. nat \<lceil>d / 360\<rceil>)")
  show "wf (measure (\<lambda>d::real. nat \<lceil>d / 360\<rceil>))" by simp
next
  fix d :: real
  assume h: "180 < d"
  have e: "\<lceil>(d - 360) / 360\<rceil> = \<lceil>d / 360\<rceil> - 1"
    by (simp add: diff_divide_distrib)
  have "0 < \<lceil>d / 360\<rceil>" using h by (simp add: ceiling_less_iff)
  with e show "(d - 360, d) \<in> measure (\<lambda>d. nat \<lceil>d / 360\<rceil>)" by simp
qed

function diff_up :: "real \<Rightarrow> real" where
  "diff_up d = (if d < - 180 then diff_up (d + 360) else d)"
  by pat_completeness auto
termination
proof (relation "measure (\<lambda>d. nat \<lceil>- (d / 360)\<rceil>)")
  show "wf (measure (\<lambda>d::real. nat \<lceil>- (d / 360)\<rceil>))" by simp
next
  fix d :: real
  assume h: "d < - 180"
  have "- ((d + 360) / 360) = - (d / 360) - 1"
    by (simp add: add_divide_distrib)
  then have e: "\<lceil>- ((d + 360) / 360)\<rceil> = \<lceil>- (d / 360)\<rceil> - 1"
    by simp
  have "0 < \<lceil>- (d / 360)\<rceil>" using h by (simp add: less_ceiling_iff)
  with e show "(d + 360, d) \<in> measure (\<lambda>d. nat \<lceil>- (d / 360)\<rceil>)" by simp
qed

definition shortest_heading_difference :: "real \<Rightarrow> real \<Rightarrow> real" where
  "shortest_heading_difference current target = diff_up (diff_down (target - current))"

definition update_heading :: "Aircraft \<Rightarrow> real \<Rightarrow> Aircraft" where
  "update_heading a time_delta =
     (case target_heading a of
        None \<Rightarrow>
          (if current_waypoint_index a < length (flight_plan a) then
             a\<lparr>target_heading :=
                 Some (calculate_heading_to_waypoint a
                         (flight_plan a ! current_waypoint_index a))\<rparr>
           else a)
      | Some tgt \<Rightarrow>
          (let heading_diff = shortest_heading_difference (heading (velocity a)) tgt in
           if \<bar>heading_diff\<bar> < 0.5 then
             a\<lparr>velocity := (velocity a)\<lparr>heading := tgt\<rparr>, target_heading := None\<rparr>
           else
             (let max_turn = MAX_TURN_RATE * time_delta;
                  a1 =
                    (if \<bar>heading_diff\<bar> \<le> max_turn then
                       a\<lparr>velocity := (velocity a)\<lparr>heading := tgt\<rparr>, target_heading := None\<rparr>
                     else
                       a\<lparr>velocity := (velocity a)\<lparr>heading :=
                            heading (velocity a)
                              + (if 0 < heading_diff then max_turn else - max_turn)\<rparr>\<rparr>)
              in a1\<lparr>velocity := normalize_heading (velocity a1)\<rparr>)))"

definition update_speed :: "Aircraft \<Rightarrow> real \<Rightarrow> Aircraft" where
  "update_speed a time_delta =
     (case target_speed a of
        None \<Rightarrow> a
      | Some tgt \<Rightarrow>
          (let speed_diff = tgt - speed (velocity a) in
           if \<bar>speed_diff\<bar> < 1 then
             a\<lparr>velocity := (velocity a)\<lparr>speed := tgt\<rparr>, target_speed := None\<rparr>
           else
             (let max_change = MAX_SPEED_CHANGE * time_delta;
                  a1 =
                    (if \<bar>speed_diff\<bar> \<le> max_change then
                       a\<lparr>velocity := (velocity a)\<lparr>speed := tgt\<rparr>, target_speed := None\<rparr>
                     else
                       a\<lparr>velocity := (velocity a)\<lparr>speed :=
                            speed (velocity a)
                              + (if 0 < speed_diff then max_change else - max_change)\<rparr>\<rparr>)
              in a1\<lparr>velocity := (velocity a1)\<lparr>speed :=
                      max MIN_SPEED (min MAX_SPEED (speed (velocity a1)))\<rparr>\<rparr>)))"

definition update_position :: "Aircraft \<Rightarrow> real \<Rightarrow> Aircraft" where
  "update_position a time_delta =
     (let distance = speed (velocity a) * (time_delta / 3600);
          heading_rad = radians (heading (velocity a))
      in a\<lparr>position := (position a)
             \<lparr>pos_x := pos_x (position a) + distance * sin heading_rad,
              pos_y := pos_y (position a) + distance * cos heading_rad\<rparr>\<rparr>)"

definition check_waypoint_progress :: "Aircraft \<Rightarrow> Aircraft" where
  "check_waypoint_progress a =
     (if length (flight_plan a) \<le> current_waypoint_index a then a
      else
        (let wp = flight_plan a ! current_waypoint_index a;
             distance = sqrt ((pos_x (position a) - wp_x wp)\<^sup>2
                              + (pos_y (position a) - wp_y wp)\<^sup>2)
         in if distance < 1 then a\<lparr>current_waypoint_index := current_waypoint_index a + 1\<rparr>
            else a))"

definition update :: "Aircraft \<Rightarrow> real \<Rightarrow> Aircraft" where
  "update a time_delta =
     (let a0 = a\<lparr>time_in_simulation := time_in_simulation a + time_delta\<rparr>;
          a1 = update_altitude a0 time_delta;
          a2 = update_heading a1 time_delta;
          a3 = update_speed a2 time_delta;
          a4 = update_position a3 time_delta
      in check_waypoint_progress a4)"

subsection \<open>ATC instructions and prediction\<close>

definition set_altitude :: "Aircraft \<Rightarrow> real \<Rightarrow> Aircraft" where
  "set_altitude a alt = a\<lparr>target_altitude := Some (max MIN_ALTITUDE (min MAX_ALTITUDE alt))\<rparr>"

definition set_heading :: "Aircraft \<Rightarrow> real \<Rightarrow> Aircraft" where
  "set_heading a hdg = a\<lparr>target_heading := Some (py_mod hdg 360)\<rparr>"

definition set_speed :: "Aircraft \<Rightarrow> real \<Rightarrow> Aircraft" where
  "set_speed a spd = a\<lparr>target_speed := Some (max MIN_SPEED (min MAX_SPEED spd))\<rparr>"

definition predict_position :: "Aircraft \<Rightarrow> real \<Rightarrow> Position" where
  "predict_position a time_ahead =
     (let distance = speed (velocity a) * (time_ahead / 3600);
          heading_rad = radians (heading (velocity a))
      in \<lparr>pos_x = pos_x (position a) + distance * sin heading_rad,
          pos_y = pos_y (position a) + distance * cos heading_rad,
          pos_altitude = pos_altitude (position a)\<rparr>)"

section \<open>airspace.py\<close>

text \<open>\<open>float('inf')\<close> and the comparisons of the code that may meet it.\<close>

datatype xreal = Fin real | PInf

fun xless :: "xreal \<Rightarrow> xreal \<Rightarrow> bool" where
  "xless (Fin a) (Fin b) = (a < b)"
| "xless (Fin a) PInf = True"
| "xless PInf b = False"

text \<open>Python's \<open>min(a, b)\<close>: \<open>b\<close> when \<open>b < a\<close>, else \<open>a\<close>.\<close>

definition xmin :: "xreal \<Rightarrow> xreal \<Rightarrow> xreal" where
  "xmin a b = (if xless b a then b else a)"

record SeparationRequirements =
  horizontal_nm :: real
  vertical_ft :: real

definition standard :: "real \<Rightarrow> SeparationRequirements" where
  "standard alt =
     (if alt < 29000 then \<lparr>horizontal_nm = 5, vertical_ft = 1000\<rparr>
      else \<lparr>horizontal_nm = 5, vertical_ft = 2000\<rparr>)"

definition terminal :: SeparationRequirements where
  "terminal = \<lparr>horizontal_nm = 3, vertical_ft = 1000\<rparr>"

record Sector =
  sector_name :: string
  x_min :: real
  x_max :: real
  y_min :: real
  y_max :: real
  altitude_min :: real
  altitude_max :: real
  max_aircraft :: int

definition contains :: "Sector \<Rightarrow> Position \<Rightarrow> bool" where
  "contains sec p \<longleftrightarrow>
     x_min sec \<le> pos_x p \<and> pos_x p \<le> x_max sec \<and>
     y_min sec \<le> pos_y p \<and> pos_y p \<le> y_max sec \<and>
     altitude_min sec \<le> pos_altitude p \<and> pos_altitude p \<le> altitude_max sec"

record Conflict =
  aircraft1 :: string
  aircraft2 :: string
  time_to_cpa :: real
  horizontal_separation_at_cpa :: real
  vertical_separation_at_cpa :: real
  severity :: string

definition is_violation :: "Conflict \<Rightarrow> SeparationRequirements \<Rightarrow> bool" where
  "is_violation c sep_requirements \<longleftrightarrow>
     horizontal_separation_at_cpa c < horizontal_nm sep_requirements \<and>
     vertical_separation_at_cpa c < vertical_ft sep_requirements"

record Airspace =
  sectors :: "Sector list"
  conflicts :: "Conflict list"

definition mk_Airspace :: Airspace where
  "mk_Airspace = \<lparr>sectors = [], conflicts = []\<rparr>"

text \<open>
  \<open>check_separation\<close>, \<open>is_separated\<close>, \<open>_check_pair_for_conflict\<close> and
  \<open>_calculate_severity\<close> are methods of \<open>Airspace\<close> that neither read nor write
  \<open>self\<close>; they are functions of their other arguments here.
\<close>

definition check_separation :: "Aircraft \<Rightarrow> Aircraft \<Rightarrow> real \<times> real" where
  "check_separation ac1 ac2 =
     (let horizontal = distance_to (position ac1) (position ac2);
          vertical = vertical_separation (position ac1) (position ac2)
      in (horizontal, vertical))"

definition is_separated :: "Aircraft \<Rightarrow> Aircraft \<Rightarrow> bool" where
  "is_separated ac1 ac2 =
     (case check_separation ac1 ac2 of (horizontal, vertical) \<Rightarrow>
        (let avg_altitude = (pos_altitude (position ac1) + pos_altitude (position ac2)) / 2;
             sep_req = standard avg_altitude
         in horizontal_nm sep_req \<le> horizontal \<or> vertical_ft sep_req \<le> vertical))"

definition calculate_severity ::
  "real \<Rightarrow> real \<Rightarrow> real \<Rightarrow> SeparationRequirements \<Rightarrow> string" where
  "calculate_severity h_sep v_sep ttc sep_req =
     (if ttc < 60 \<or> h_sep < horizontal_nm sep_req * 0.5 then ''high''
      else if ttc < 180 \<or> h_sep < horizontal_nm sep_req * 0.75 then ''medium''
      else ''low'')"

text \<open>
  The body of the sampling loop of \<open>_check_pair_for_conflict\<close>, on the loop's variables
  \<open>(min_horizontal, min_vertical, time_at_min)\<close>.
\<close>

definition sample_step ::
  "Aircraft \<Rightarrow> Aircraft \<Rightarrow> xreal \<times> xreal \<times> nat \<Rightarrow> nat \<Rightarrow> xreal \<times> xreal \<times> nat" where
  "sample_step ac1 ac2 acc t =
     (case acc of (min_horizontal, min_vertical, time_at_min) \<Rightarrow>
        (let pos1 = predict_position ac1 (real t);
             pos2 = predict_position ac2 (real t);
             h_sep = distance_to pos1 pos2;
             v_sep = \<bar>pos_altitude pos1 - pos_altitude pos2\<bar>
         in if xless (Fin h_sep) min_horizontal then (Fin h_sep, Fin v_sep, t)
            else (min_horizontal, min_vertical, time_at_min)))"

text \<open>
  \<open>range(time_steps)\<close> is empty for a \<open>time_steps\<close> that is not positive. The test
  \<open>min_horizontal < sep_req.horizontal_nm and min_vertical < sep_req.vertical_ft\<close> is
  false when a minimum is still \<open>inf\<close>.
\<close>

definition check_pair_for_conflict :: "Aircraft \<Rightarrow> Aircraft \<Rightarrow> real \<Rightarrow> Conflict option" where
  "check_pair_for_conflict ac1 ac2 lookahead_time =
     (let time_steps = py_int lookahead_time;
          scan = foldl (sample_step ac1 ac2) (PInf, PInf, 0) [0..<nat time_steps];
          avg_altitude = (pos_altitude (position ac1) + pos_altitude (position ac2)) / 2;
          sep_req = standard avg_altitude
      in case scan of
           (Fin min_horizontal, Fin min_vertical, time_at_min) \<Rightarrow>
             if min_horizontal < horizontal_nm sep_req \<and> min_vertical < vertical_ft sep_req
             then Some \<lparr>aircraft1 = callsign ac1, aircraft2 = callsign ac2,
                        time_to_cpa = real time_at_min,
                        horizontal_separation_at_cpa = min_horizontal,
                        vertical_separation_at_cpa = min_vertical,
                        severity = calculate_severity min_horizontal min_vertical
                                     (real time_at_min) sep_req\<rparr>
             else None
         | _ \<Rightarrow> None)"

text \<open>
  The pair loop that \<open>detect_conflicts\<close>, \<open>_check_violations\<close> and \<open>_check_near_misses\<close>
  all run: \<open>for i in range(n): for j in range(i + 1, n): body\<close>.
\<close>

definition for_pairs :: "nat \<Rightarrow> ('s \<Rightarrow> nat \<Rightarrow> nat \<Rightarrow> 's) \<Rightarrow> 's \<Rightarrow> 's" where
  "for_pairs n body s0 = foldl (\<lambda>s i. foldl (\<lambda>s' j. body s' i j) s [i + 1..<n]) s0 [0..<n]"

definition detect_conflicts ::
  "Airspace \<Rightarrow> Aircraft list \<Rightarrow> real \<Rightarrow> Conflict list \<times> Airspace" where
  "detect_conflicts self aircraft_list lookahead_time =
     (let found =
            for_pairs (length aircraft_list)
              (\<lambda>cs i j.
                 case check_pair_for_conflict (aircraft_list ! i) (aircraft_list ! j)
                        lookahead_time of
                   Some conflict \<Rightarrow> cs @ [conflict]
                 | None \<Rightarrow> cs)
              []
      in (found, self\<lparr>conflicts := found\<rparr>))"

text \<open>The default of the parameter \<open>lookahead_time\<close>.\<close>

definition default_lookahead_time :: real where
  "default_lookahead_time = 300"

section \<open>atc_system.py\<close>

datatype InstructionType =
  ALTITUDE_CHANGE | HEADING_CHANGE | SPEED_CHANGE | HOLD | DIRECT_TO | CLEARED_APPROACH

datatype Priority = LOW | MEDIUM | HIGH | CRITICAL

text \<open>The values of the \<open>parameters\<close> dictionary: a number or a string.\<close>

datatype param = Num real | Str string

record ATCInstruction =
  i_callsign :: string
  timestamp :: real
  instruction_type :: InstructionType
  parameters :: "(string \<times> param) list"
  reason :: string
  priority :: Priority

record ATCSystem =
  airspace :: Airspace
  instructions :: "ATCInstruction list"
  instruction_count :: nat

definition mk_ATCSystem :: "Airspace \<Rightarrow> ATCSystem" where
  "mk_ATCSystem asp = \<lparr>airspace = asp, instructions = [], instruction_count = 0\<rparr>"

text \<open>
  What a subscript \<open>parameters[key]\<close> passed on to a setter of the aircraft can raise:
  \<open>KeyError\<close> for a missing key, \<open>TypeError\<close> when the setter compares a string
  with a number.
\<close>

datatype error = KeyError | TypeError

definition get_num :: "(string \<times> param) list \<Rightarrow> string \<Rightarrow> error + real" where
  "get_num ps key =
     (case map_of ps key of
        None \<Rightarrow> Inl KeyError
      | Some (Str s) \<Rightarrow> Inl TypeError
      | Some (Num r) \<Rightarrow> Inr r)"

text \<open>
  The aircraft objects live in the aircraft list; a method that receives an aircraft
  object and mutates it receives the list and the index of the object here, and returns
  the list updated.
\<close>

definition issue_instruction ::
  "ATCSystem \<Rightarrow> Aircraft list \<Rightarrow> ATCInstruction \<Rightarrow> nat \<Rightarrow> error + (ATCSystem \<times> Aircraft list)" where
  "issue_instruction self acs instruction k =
     (let self' = self\<lparr>instructions := instructions self @ [instruction],
                       instruction_count := instruction_count self + 1\<rparr>
      in if instruction_type instruction = ALTITUDE_CHANGE then
           (case get_num (parameters instruction) ''new_altitude'' of
              Inl e \<Rightarrow> Inl e
            | Inr v \<Rightarrow> Inr (self', acs[k := set_altitude (acs ! k) v]))
         else if instruction_type instruction = HEADING_CHANGE then
           (case get_num (parameters instruction) ''new_heading'' of
              Inl e \<Rightarrow> Inl e
            | Inr v \<Rightarrow> Inr (self', acs[k := set_heading (acs ! k) v]))
         else if instruction_type instruction = SPEED_CHANGE then
           (case get_num (parameters instruction) ''new_speed'' of
              Inl e \<Rightarrow> Inl e
            | Inr v \<Rightarrow> Inr (self', acs[k := set_speed (acs ! k) v]))
         else Inr (self', acs))"

text \<open>The loop of \<open>_recently_instructed\<close> over \<open>reversed(self.instructions[-20:])\<close>.\<close>

fun scan_recent :: "ATCInstruction list \<Rightarrow> string \<Rightarrow> string \<Rightarrow> real \<Rightarrow> real \<Rightarrow> bool" where
  "scan_recent [] callsign1 callsign2 current_time window = False"
| "scan_recent (instruction # rest) callsign1 callsign2 current_time window =
     (if window < current_time - timestamp instruction then False
      else if i_callsign instruction \<in> set [callsign1, callsign2] then True
      else scan_recent rest callsign1 callsign2 current_time window)"

definition last_20 :: "'a list \<Rightarrow> 'a list" where
  "last_20 xs = drop (length xs - 20) xs"

definition recently_instructed :: "ATCSystem \<Rightarrow> string \<Rightarrow> string \<Rightarrow> real \<Rightarrow> real \<Rightarrow> bool" where
  "recently_instructed self callsign1 callsign2 current_time window =
     scan_recent (rev (last_20 (instructions self))) callsign1 callsign2 current_time window"

definition try_altitude_resolution ::
  "ATCSystem \<Rightarrow> Aircraft list \<Rightarrow> nat \<Rightarrow> nat \<Rightarrow> Conflict \<Rightarrow> real
     \<Rightarrow> error + (bool \<times> ATCSystem \<times> Aircraft list)" where
  "try_altitude_resolution self acs k1 k2 conflict current_time =
     (let ac1 = acs ! k1; ac2 = acs ! k2;
          avg_altitude = (pos_altitude (position ac1) + pos_altitude (position ac2)) / 2;
          sep_req = standard avg_altitude;
          lower = (if pos_altitude (position ac1) < pos_altitude (position ac2) then k1 else k2);
          higher = (if pos_altitude (position ac1) < pos_altitude (position ac2) then k2 else k1);
          new_altitude = pos_altitude (position (acs ! lower)) - vertical_ft sep_req - 1000
      in if MIN_ALTITUDE \<le> new_altitude then
           (case issue_instruction self acs
                   \<lparr>i_callsign = callsign (acs ! lower), timestamp = current_time,
                    instruction_type = ALTITUDE_CHANGE,
                    parameters = [(''new_altitude'', Num new_altitude), (''rate'', Str ''normal'')],
                    reason = ''traffic_conflict'',
                    priority = (if severity conflict = ''high'' then HIGH else MEDIUM)\<rparr>
                   lower of
              Inl e \<Rightarrow> Inl e
            | Inr (self', acs') \<Rightarrow> Inr (True, self', acs'))
         else
           (let new_altitude' = pos_altitude (position (acs ! higher)) + vertical_ft sep_req + 1000
            in if new_altitude' \<le> MAX_ALTITUDE then
                 (case issue_instruction self acs
                         \<lparr>i_callsign = callsign (acs ! higher), timestamp = current_time,
                          instruction_type = ALTITUDE_CHANGE,
                          parameters = [(''new_altitude'', Num new_altitude'),
                                        (''rate'', Str ''normal'')],
                          reason = ''traffic_conflict'',
                          priority = (if severity conflict = ''high'' then HIGH else MEDIUM)\<rparr>
                         higher of
                    Inl e \<Rightarrow> Inl e
                  | Inr (self', acs') \<Rightarrow> Inr (True, self', acs'))
               else Inr (False, self, acs)))"

definition try_heading_resolution ::
  "ATCSystem \<Rightarrow> Aircraft list \<Rightarrow> nat \<Rightarrow> nat \<Rightarrow> Conflict \<Rightarrow> real
     \<Rightarrow> error + (bool \<times> ATCSystem \<times> Aircraft list)" where
  "try_heading_resolution self acs k1 k2 conflict current_time =
     (let ac1 = acs ! k1;
          new_heading = py_mod (heading (velocity ac1) + 30) 360
      in case issue_instruction self acs
                \<lparr>i_callsign = callsign ac1, timestamp = current_time,
                 instruction_type = HEADING_CHANGE,
                 parameters = [(''new_heading'', Num new_heading)],
                 reason = ''traffic_conflict'',
                 priority = (if severity conflict = ''high'' then HIGH else MEDIUM)\<rparr>
                k1 of
           Inl e \<Rightarrow> Inl e
         | Inr (self', acs') \<Rightarrow> Inr (True, self', acs'))"

definition try_speed_resolution ::
  "ATCSystem \<Rightarrow> Aircraft list \<Rightarrow> nat \<Rightarrow> nat \<Rightarrow> Conflict \<Rightarrow> real
     \<Rightarrow> error + (bool \<times> ATCSystem \<times> Aircraft list)" where
  "try_speed_resolution self acs k1 k2 conflict current_time =
     (let ac1 = acs ! k1; ac2 = acs ! k2;
          faster = speed (velocity ac2) < speed (velocity ac1);
          new_speed = (if faster then max MIN_SPEED (speed (velocity ac1) - 50)
                       else min MAX_SPEED (speed (velocity ac2) + 50));
          target_ac = (if faster then k1 else k2)
      in case issue_instruction self acs
                \<lparr>i_callsign = callsign (acs ! target_ac), timestamp = current_time,
                 instruction_type = SPEED_CHANGE,
                 parameters = [(''new_speed'', Num new_speed)],
                 reason = ''traffic_conflict'',
                 priority = MEDIUM\<rparr>
                target_ac of
           Inl e \<Rightarrow> Inl e
         | Inr (self', acs') \<Rightarrow> Inr (True, self', acs'))"

text \<open>
  \<open>next((ac for ac in aircraft_list if ac.callsign == c), None)\<close>: the first aircraft
  with the callsign, here its index.
\<close>

fun find_callsign :: "Aircraft list \<Rightarrow> string \<Rightarrow> nat option" where
  "find_callsign [] c = None"
| "find_callsign (ac # acs) c =
     (if callsign ac = c then Some 0 else map_option Suc (find_callsign acs c))"

definition resolve_conflict ::
  "ATCSystem \<Rightarrow> Conflict \<Rightarrow> Aircraft list \<Rightarrow> real \<Rightarrow> error + (ATCSystem \<times> Aircraft list)" where
  "resolve_conflict self conflict acs current_time =
     (case (find_callsign acs (aircraft1 conflict), find_callsign acs (aircraft2 conflict)) of
        (Some k1, Some k2) \<Rightarrow>
          if recently_instructed self (aircraft1 conflict) (aircraft2 conflict) current_time 60
          then Inr (self, acs)
          else
            (case try_altitude_resolution self acs k1 k2 conflict current_time of
               Inl e \<Rightarrow> Inl e
             | Inr (True, self1, acs1) \<Rightarrow> Inr (self1, acs1)
             | Inr (False, self1, acs1) \<Rightarrow>
                 (case try_heading_resolution self1 acs1 k1 k2 conflict current_time of
                    Inl e \<Rightarrow> Inl e
                  | Inr (True, self2, acs2) \<Rightarrow> Inr (self2, acs2)
                  | Inr (False, self2, acs2) \<Rightarrow>
                      (case try_speed_resolution self2 acs2 k1 k2 conflict current_time of
                         Inl e \<Rightarrow> Inl e
                       | Inr (r, self3, acs3) \<Rightarrow> Inr (self3, acs3))))
      | _ \<Rightarrow> Inr (self, acs))"

text \<open>\<open>ATCSystem.update\<close>: the loop over the conflicts found, stopping at an exception.\<close>

fun resolve_all ::
  "ATCSystem \<Rightarrow> Conflict list \<Rightarrow> Aircraft list \<Rightarrow> real \<Rightarrow> error + (ATCSystem \<times> Aircraft list)" where
  "resolve_all self [] acs current_time = Inr (self, acs)"
| "resolve_all self (conflict # rest) acs current_time =
     (if severity conflict \<in> set [''high'', ''medium''] then
        (case resolve_conflict self conflict acs current_time of
           Inl e \<Rightarrow> Inl e
         | Inr (self', acs') \<Rightarrow> resolve_all self' rest acs' current_time)
      else resolve_all self rest acs current_time)"

definition atc_update ::
  "ATCSystem \<Rightarrow> Aircraft list \<Rightarrow> real \<Rightarrow> error + (ATCSystem \<times> Aircraft list)" where
  "atc_update self acs current_time =
     (case detect_conflicts (airspace self) acs 300 of
        (found, asp) \<Rightarrow> resolve_all (self\<lparr>airspace := asp\<rparr>) found acs current_time)"

section \<open>safety_evaluator.py\<close>

record SeparationViolation =
  v_aircraft1 :: string
  v_aircraft2 :: string
  v_timestamp :: real
  v_horizontal_separation :: real
  v_vertical_separation :: real
  v_duration :: real
  v_severity :: string

record NearMiss =
  nm_aircraft1 :: string
  nm_aircraft2 :: string
  nm_timestamp :: real
  nm_horizontal_separation :: real
  nm_vertical_separation :: real
  min_separation_ratio :: xreal

text \<open>
  A violation object is shared by the history \<open>violations\<close> and the dictionary
  \<open>active_violations\<close>, and mutated through the dictionary. The history is the store:
  the dictionary maps a pair key to the index of its record in the history.
\<close>

record SafetyEvaluator =
  se_airspace :: Airspace
  violations :: "SeparationViolation list"
  near_misses :: "NearMiss list"
  active_violations :: "string \<times> string \<rightharpoonup> nat"
  detected_conflicts :: "Conflict list"
  conflict_resolution_times :: "real list"
  total_aircraft_seen :: "string set"
  simulation_start_time :: real
  simulation_end_time :: real

definition mk_SafetyEvaluator :: "Airspace \<Rightarrow> SafetyEvaluator" where
  "mk_SafetyEvaluator asp =
     \<lparr>se_airspace = asp, violations = [], near_misses = [], active_violations = Map.empty,
      detected_conflicts = [], conflict_resolution_times = [], total_aircraft_seen = {},
      simulation_start_time = 0, simulation_end_time = 0\<rparr>"

definition NEAR_MISS_THRESHOLD :: real where "NEAR_MISS_THRESHOLD = 1.5"
definition CRITICAL_VIOLATION_THRESHOLD :: real where "CRITICAL_VIOLATION_THRESHOLD = 0.5"

text \<open>\<open>tuple(sorted([c1, c2]))\<close>; strings are ordered lexicographically.\<close>

definition pair_key :: "string \<Rightarrow> string \<Rightarrow> string \<times> string" where
  "pair_key c1 c2 = (if c2 < c1 then (c2, c1) else (c1, c2))"

definition classify_violation_severity :: "real \<Rightarrow> real \<Rightarrow> Aircraft \<Rightarrow> Aircraft \<Rightarrow> string" where
  "classify_violation_severity h_sep v_sep ac1 ac2 =
     (let avg_altitude = (pos_altitude (position ac1) + pos_altitude (position ac2)) / 2;
          sep_req = standard avg_altitude;
          h_ratio = h_sep / horizontal_nm sep_req
      in if h_ratio < CRITICAL_VIOLATION_THRESHOLD then ''critical''
         else if h_ratio < 0.75 then ''major''
         else ''minor'')"

text \<open>
  The property \<open>min_separation_achieved\<close>: the getter recomputes the minimum from the
  history, the setter is \<open>pass\<close>.
\<close>

definition min_separation_achieved :: "SafetyEvaluator \<Rightarrow> xreal" where
  "min_separation_achieved self =
     (case violations self of
        [] \<Rightarrow> PInf
      | v # vs \<Rightarrow> Fin (foldl min (v_horizontal_separation v) (map v_horizontal_separation vs)))"

definition set_min_separation_achieved :: "SafetyEvaluator \<Rightarrow> real \<Rightarrow> SafetyEvaluator" where
  "set_min_separation_achieved self v = self"

text \<open>
  The body of the pair loop of \<open>_check_violations\<close>, on the local set
  \<open>current_violations\<close> and the evaluator.
\<close>

definition violation_step ::
  "Aircraft list \<Rightarrow> real \<Rightarrow> (string \<times> string) set \<times> SafetyEvaluator \<Rightarrow> nat \<Rightarrow> nat
     \<Rightarrow> (string \<times> string) set \<times> SafetyEvaluator" where
  "violation_step acs current_time st i j =
     (case st of (current_violations, self) \<Rightarrow>
        (let ac1 = acs ! i; ac2 = acs ! j in
         if \<not> is_separated ac1 ac2 then
           (let key = pair_key (callsign ac1) (callsign ac2);
                current_violations' = insert key current_violations
            in case check_separation ac1 ac2 of (h_sep, v_sep) \<Rightarrow>
                 (let self1 = (if xless (Fin h_sep) (min_separation_achieved self)
                               then set_min_separation_achieved self h_sep else self)
                  in case active_violations self1 key of
                       None \<Rightarrow>
                         (let sev = classify_violation_severity h_sep v_sep ac1 ac2;
                              violation =
                                \<lparr>v_aircraft1 = callsign ac1, v_aircraft2 = callsign ac2,
                                 v_timestamp = current_time, v_horizontal_separation = h_sep,
                                 v_vertical_separation = v_sep, v_duration = 0,
                                 v_severity = sev\<rparr>
                          in (current_violations',
                              self1\<lparr>active_violations :=
                                       (active_violations self1)(key \<mapsto> length (violations self1)),
                                     violations := violations self1 @ [violation]\<rparr>))
                     | Some idx \<Rightarrow>
                         (current_violations',
                          self1\<lparr>violations :=
                                   (violations self1)
                                     [idx := (violations self1 ! idx)
                                        \<lparr>v_duration := v_duration (violations self1 ! idx) + 1\<rparr>]\<rparr>)))
         else (current_violations, self)))"

definition check_violations ::
  "SafetyEvaluator \<Rightarrow> Aircraft list \<Rightarrow> real \<Rightarrow> SafetyEvaluator" where
  "check_violations self acs current_time =
     (case for_pairs (length acs) (violation_step acs current_time) ({}, self) of
        (current_violations, self') \<Rightarrow>
          self'\<lparr>active_violations := active_violations self' |` current_violations\<rparr>)"

definition near_miss_step ::
  "Aircraft list \<Rightarrow> real \<Rightarrow> SafetyEvaluator \<Rightarrow> nat \<Rightarrow> nat \<Rightarrow> SafetyEvaluator" where
  "near_miss_step acs current_time self i j =
     (let ac1 = acs ! i; ac2 = acs ! j in
      case check_separation ac1 ac2 of (h_sep, v_sep) \<Rightarrow>
        (let avg_altitude = (pos_altitude (position ac1) + pos_altitude (position ac2)) / 2;
             sep_req = standard avg_altitude
         in if is_separated ac1 ac2 then
              (let h_ratio = Fin (h_sep / horizontal_nm sep_req);
                   v_ratio = (if 0 < v_sep then Fin (v_sep / vertical_ft sep_req) else PInf);
                   min_ratio = xmin h_ratio v_ratio
               in if xless min_ratio (Fin NEAR_MISS_THRESHOLD) then
                    self\<lparr>near_misses := near_misses self @
                           [\<lparr>nm_aircraft1 = callsign ac1, nm_aircraft2 = callsign ac2,
                             nm_timestamp = current_time, nm_horizontal_separation = h_sep,
                             nm_vertical_separation = v_sep,
                             min_separation_ratio = min_ratio\<rparr>]\<rparr>
                  else self)
            else self))"

definition check_near_misses ::
  "SafetyEvaluator \<Rightarrow> Aircraft list \<Rightarrow> real \<Rightarrow> SafetyEvaluator" where
  "check_near_misses self acs current_time =
     for_pairs (length acs) (near_miss_step acs current_time) self"

text \<open>\<open>SafetyEvaluator.update\<close>.\<close>

definition safety_update ::
  "SafetyEvaluator \<Rightarrow> Aircraft list \<Rightarrow> real \<Rightarrow> ATCSystem option \<Rightarrow> SafetyEvaluator" where
  "safety_update self acs current_time atc_system =
     (let self1 = (if simulation_start_time self = 0
                   then self\<lparr>simulation_start_time := current_time\<rparr> else self);
          self2 = self1\<lparr>simulation_end_time := current_time\<rparr>;
          self3 = self2\<lparr>total_aircraft_seen :=
                           total_aircraft_seen self2 \<union> set (map callsign acs)\<rparr>;
          self4 = check_violations self3 acs current_time;
          self5 = check_near_misses self4 acs current_time
      in case atc_system of
           Some atc \<Rightarrow>
             self5\<lparr>detected_conflicts := detected_conflicts self5 @ conflicts (airspace atc)\<rparr>
         | None \<Rightarrow> self5)"

section \<open>Notions used in the statements\<close>

text \<open>The limits of the aircraft invariant: altitude, speed and heading in range.\<close>

definition within_limits :: "Aircraft \<Rightarrow> bool" where
  "within_limits a \<longleftrightarrow>
     MIN_ALTITUDE \<le> pos_altitude (position a) \<and> pos_altitude (position a) \<le> MAX_ALTITUDE \<and>
     MIN_SPEED \<le> speed (velocity a) \<and> speed (velocity a) \<le> MAX_SPEED \<and>
     0 \<le> heading (velocity a) \<and> heading (velocity a) < 360"

text \<open>
  An aircraft at the altitude floor whose only waypoint, 100 NM to the north, asks for
  995 ft.
\<close>

definition snap_aircraft :: Aircraft where
  "snap_aircraft =
     mk_Aircraft ''UAL1'' \<lparr>pos_x = 0, pos_y = 0, pos_altitude = 1000\<rparr>
       \<lparr>speed = 360, heading = 0\<rparr>
       [\<lparr>wp_name = ''WP1'', wp_x = 0, wp_y = 100, wp_altitude = Some 995\<rparr>]
       ''B737'' ENROUTE"

definition pair_avg_altitude :: "Aircraft \<Rightarrow> Aircraft \<Rightarrow> real" where
  "pair_avg_altitude a b = (pos_altitude (position a) + pos_altitude (position b)) / 2"

text \<open>Three aircraft on one line: the second 5 NM and 1000 ft, the third 4.99 NM and 999 ft
  from the first.\<close>

definition boundary_a :: Aircraft where
  "boundary_a = mk_Aircraft ''A'' \<lparr>pos_x = 0, pos_y = 0, pos_altitude = 10000\<rparr>
       \<lparr>speed = 300, heading = 0\<rparr> [] ''B737'' ENROUTE"

definition boundary_b :: Aircraft where
  "boundary_b = mk_Aircraft ''B'' \<lparr>pos_x = 5, pos_y = 0, pos_altitude = 11000\<rparr>
       \<lparr>speed = 300, heading = 0\<rparr> [] ''B737'' ENROUTE"

definition boundary_c :: Aircraft where
  "boundary_c = mk_Aircraft ''C'' \<lparr>pos_x = 4.99, pos_y = 0, pos_altitude = 10999\<rparr>
       \<lparr>speed = 300, heading = 0\<rparr> [] ''B737'' ENROUTE"

text \<open>
  The words of the specification for the conflict scan: the separations of the two
  predicted positions at the sample \<open>t\<close>, and the sample of minimum horizontal separation
  among \<open>0, ..., n - 1\<close> (the first one, where several samples reach the minimum).
\<close>

definition sampled_horizontal :: "Aircraft \<Rightarrow> Aircraft \<Rightarrow> nat \<Rightarrow> real" where
  "sampled_horizontal ac1 ac2 t =
     distance_to (predict_position ac1 (real t)) (predict_position ac2 (real t))"

definition sampled_vertical :: "Aircraft \<Rightarrow> Aircraft \<Rightarrow> nat \<Rightarrow> real" where
  "sampled_vertical ac1 ac2 t =
     \<bar>pos_altitude (predict_position ac1 (real t)) - pos_altitude (predict_position ac2 (real t))\<bar>"

definition is_cpa_sample :: "Aircraft \<Rightarrow> Aircraft \<Rightarrow> nat \<Rightarrow> nat \<Rightarrow> bool" where
  "is_cpa_sample ac1 ac2 n t \<longleftrightarrow>
     t < n \<and>
     (\<forall>s\<in>{0..<n}. sampled_horizontal ac1 ac2 t \<le> sampled_horizontal ac1 ac2 s) \<and>
     (\<forall>s\<in>{0..<t}. sampled_horizontal ac1 ac2 t < sampled_horizontal ac1 ac2 s)"

text \<open>The unordered pairs of indices below \<open>n\<close>, in the order the pair loop visits them.\<close>

definition index_pairs :: "nat \<Rightarrow> (nat \<times> nat) list" where
  "index_pairs n = concat (map (\<lambda>i. map (Pair i) [i + 1..<n]) [0..<n])"

definition conflict_at :: "Aircraft \<Rightarrow> Aircraft \<Rightarrow> nat \<Rightarrow> Conflict" where
  "conflict_at ac1 ac2 t =
     \<lparr>aircraft1 = callsign ac1, aircraft2 = callsign ac2, time_to_cpa = real t,
      horizontal_separation_at_cpa = sampled_horizontal ac1 ac2 t,
      vertical_separation_at_cpa = sampled_vertical ac1 ac2 t,
      severity = calculate_severity (sampled_horizontal ac1 ac2 t) (sampled_vertical ac1 ac2 t)
                   (real t) (standard (pair_avg_altitude ac1 ac2))\<rparr>"

text \<open>\<open>Simulator.create_conflict_scenario\<close>: two aircraft flying head-on at 450 kt.\<close>

definition conflict_scenario_ac1 :: Aircraft where
  "conflict_scenario_ac1 =
     mk_Aircraft ''UAL100'' \<lparr>pos_x = 50, pos_y = 100, pos_altitude = 35000\<rparr>
       \<lparr>speed = 450, heading = 90\<rparr>
       [\<lparr>wp_name = ''DEST1'', wp_x = 150, wp_y = 100, wp_altitude = Some 35000\<rparr>]
       ''B737'' ENROUTE"

definition conflict_scenario_ac2 :: Aircraft where
  "conflict_scenario_ac2 =
     mk_Aircraft ''AAL200'' \<lparr>pos_x = 150, pos_y = 100, pos_altitude = 35000\<rparr>
       \<lparr>speed = 450, heading = 270\<rparr>
       [\<lparr>wp_name = ''DEST2'', wp_x = 50, wp_y = 100, wp_altitude = Some 35000\<rparr>]
       ''A320'' ENROUTE"

definition conflict_scenario :: "Aircraft list" where
  "conflict_scenario = [conflict_scenario_ac1, conflict_scenario_ac2]"

text \<open>The same pair with the second aircraft \<open>gap\<close> NM east of the first.\<close>

definition closing_ac2 :: "real \<Rightarrow> Aircraft" where
  "closing_ac2 gap =
     conflict_scenario_ac2\<lparr>position := \<lparr>pos_x = 50 + gap, pos_y = 100, pos_altitude = 35000\<rparr>\<rparr>"

definition closing_scenario :: "real \<Rightarrow> Aircraft list" where
  "closing_scenario gap = [conflict_scenario_ac1, closing_ac2 gap]"

text \<open>The lower and the higher aircraft of a pair, by index; at equal altitudes the second
  aircraft is the lower one, as in the code.\<close>

definition lower_index :: "Aircraft list \<Rightarrow> nat \<Rightarrow> nat \<Rightarrow> nat" where
  "lower_index acs k1 k2 =
     (if pos_altitude (position (acs ! k1)) < pos_altitude (position (acs ! k2)) then k1 else k2)"

definition higher_index :: "Aircraft list \<Rightarrow> nat \<Rightarrow> nat \<Rightarrow> nat" where
  "higher_index acs k1 k2 =
     (if pos_altitude (position (acs ! k1)) < pos_altitude (position (acs ! k2)) then k2 else k1)"

text \<open>The priority and the instructions that the policy builds for a conflict.\<close>

definition conflict_priority :: "Conflict \<Rightarrow> Priority" where
  "conflict_priority c = (if severity c = ''high'' then HIGH else MEDIUM)"

definition altitude_change :: "string \<Rightarrow> real \<Rightarrow> real \<Rightarrow> Priority \<Rightarrow> ATCInstruction" where
  "altitude_change cs t alt p =
     \<lparr>i_callsign = cs, timestamp = t, instruction_type = ALTITUDE_CHANGE,
      parameters = [(''new_altitude'', Num alt), (''rate'', Str ''normal'')],
      reason = ''traffic_conflict'', priority = p\<rparr>"

definition heading_change :: "string \<Rightarrow> real \<Rightarrow> real \<Rightarrow> Priority \<Rightarrow> ATCInstruction" where
  "heading_change cs t hdg p =
     \<lparr>i_callsign = cs, timestamp = t, instruction_type = HEADING_CHANGE,
      parameters = [(''new_heading'', Num hdg)],
      reason = ''traffic_conflict'', priority = p\<rparr>"

text \<open>The log after one more instruction.\<close>

definition logged :: "ATCSystem \<Rightarrow> ATCInstruction \<Rightarrow> ATCSystem" where
  "logged self i = self\<lparr>instructions := instructions self @ [i],
                         instruction_count := instruction_count self + 1\<rparr>"

text \<open>
  The words of the specification for altitude resolution: the required vertical separation
  of the pair, the target 1000 ft further below the lower aircraft, the target 1000 ft
  further above the higher one, and for heading resolution the heading 30 degrees to the
  right.
\<close>

definition required_vertical :: "Aircraft list \<Rightarrow> nat \<Rightarrow> nat \<Rightarrow> real" where
  "required_vertical acs k1 k2 = vertical_ft (standard (pair_avg_altitude (acs ! k1) (acs ! k2)))"

definition lower_target :: "Aircraft list \<Rightarrow> nat \<Rightarrow> nat \<Rightarrow> real" where
  "lower_target acs k1 k2 =
     pos_altitude (position (acs ! lower_index acs k1 k2)) - required_vertical acs k1 k2 - 1000"

definition higher_target :: "Aircraft list \<Rightarrow> nat \<Rightarrow> nat \<Rightarrow> real" where
  "higher_target acs k1 k2 =
     pos_altitude (position (acs ! higher_index acs k1 k2)) + required_vertical acs k1 k2 + 1000"

definition vectored_heading :: "Aircraft \<Rightarrow> real" where
  "vectored_heading ac = py_mod (heading (velocity ac) + 30) 360"

text \<open>The system and the aircraft list after each of the three instructions.\<close>

definition lower_resolved :: "ATCSystem \<Rightarrow> Aircraft list \<Rightarrow> nat \<Rightarrow> nat \<Rightarrow> Conflict \<Rightarrow> real
    \<Rightarrow> ATCSystem \<times> Aircraft list" where
  "lower_resolved self acs k1 k2 c t =
     (logged self (altitude_change (callsign (acs ! lower_index acs k1 k2)) t
                     (lower_target acs k1 k2) (conflict_priority c)),
      acs[lower_index acs k1 k2 :=
            set_altitude (acs ! lower_index acs k1 k2) (lower_target acs k1 k2)])"

definition higher_resolved :: "ATCSystem \<Rightarrow> Aircraft list \<Rightarrow> nat \<Rightarrow> nat \<Rightarrow> Conflict \<Rightarrow> real
    \<Rightarrow> ATCSystem \<times> Aircraft list" where
  "higher_resolved self acs k1 k2 c t =
     (logged self (altitude_change (callsign (acs ! higher_index acs k1 k2)) t
                     (higher_target acs k1 k2) (conflict_priority c)),
      acs[higher_index acs k1 k2 :=
            set_altitude (acs ! higher_index acs k1 k2) (higher_target acs k1 k2)])"

definition heading_resolved :: "ATCSystem \<Rightarrow> Aircraft list \<Rightarrow> nat \<Rightarrow> Conflict \<Rightarrow> real
    \<Rightarrow> ATCSystem \<times> Aircraft list" where
  "heading_resolved self acs k1 c t =
     (logged self (heading_change (callsign (acs ! k1)) t (vectored_heading (acs ! k1))
                     (conflict_priority c)),
      acs[k1 := set_heading (acs ! k1) (vectored_heading (acs ! k1))])"

text \<open>
  A run of the policy returns without an exception, and what it adds to the log holds no
  \<open>SPEED_CHANGE\<close>.
\<close>

definition extends_without_speed :: "ATCSystem \<Rightarrow> error + (ATCSystem \<times> Aircraft list) \<Rightarrow> bool" where
  "extends_without_speed self r \<longleftrightarrow>
     (\<exists>self' acs' new. r = Inr (self', acs') \<and> instructions self' = instructions self @ new \<and>
        list_all (\<lambda>i. instruction_type i \<noteq> SPEED_CHANGE) new)"

text \<open>
  The two aircraft of the scenario at given altitudes, a conflict between them of a given
  severity, a system with an empty log and one that vectored the first aircraft at 10 s.
\<close>

definition pair_at :: "real \<Rightarrow> real \<Rightarrow> Aircraft list" where
  "pair_at alt1 alt2 =
     [conflict_scenario_ac1\<lparr>position := \<lparr>pos_x = 50, pos_y = 100, pos_altitude = alt1\<rparr>\<rparr>,
      conflict_scenario_ac2\<lparr>position := \<lparr>pos_x = 150, pos_y = 100, pos_altitude = alt2\<rparr>\<rparr>]"

definition head_on_conflict :: "string \<Rightarrow> Conflict" where
  "head_on_conflict sev =
     \<lparr>aircraft1 = ''UAL100'', aircraft2 = ''AAL200'', time_to_cpa = 30,
      horizontal_separation_at_cpa = 1, vertical_separation_at_cpa = 0, severity = sev\<rparr>"

definition atc0 :: ATCSystem where
  "atc0 = mk_ATCSystem mk_Airspace"

definition atc1 :: ATCSystem where
  "atc1 = logged atc0 (heading_change ''UAL100'' 10 120 HIGH)"

text \<open>The record that \<open>_check_violations\<close> creates for the pair \<open>(i, j)\<close> at the time \<open>t\<close>.\<close>

definition observed_violation :: "Aircraft list \<Rightarrow> real \<Rightarrow> nat \<Rightarrow> nat \<Rightarrow> SeparationViolation" where
  "observed_violation acs t i j =
     \<lparr>v_aircraft1 = callsign (acs ! i), v_aircraft2 = callsign (acs ! j), v_timestamp = t,
      v_horizontal_separation = distance_to (position (acs ! i)) (position (acs ! j)),
      v_vertical_separation = vertical_separation (position (acs ! i)) (position (acs ! j)),
      v_duration = 0,
      v_severity = classify_violation_severity
                     (distance_to (position (acs ! i)) (position (acs ! j)))
                     (vertical_separation (position (acs ! i)) (position (acs ! j)))
                     (acs ! i) (acs ! j)\<rparr>"

text \<open>The key of a pair of indices, and whether the pair is in violation.\<close>

definition key_of :: "Aircraft list \<Rightarrow> nat \<times> nat \<Rightarrow> string \<times> string" where
  "key_of acs p = pair_key (callsign (acs ! fst p)) (callsign (acs ! snd p))"

definition violating :: "Aircraft list \<Rightarrow> nat \<times> nat \<Rightarrow> bool" where
  "violating acs p \<longleftrightarrow> \<not> is_separated (acs ! fst p) (acs ! snd p)"

text \<open>The pair keys found violating in a scan of the pairs \<open>ps\<close>.\<close>

definition violating_keys :: "Aircraft list \<Rightarrow> (nat \<times> nat) list \<Rightarrow> (string \<times> string) set" where
  "violating_keys acs ps = key_of acs ` {p \<in> set ps. violating acs p}"

text \<open>Every active key points to a record of the history, and no two keys to the same one.\<close>

definition wf_active :: "SafetyEvaluator \<Rightarrow> bool" where
  "wf_active s \<longleftrightarrow>
     (\<forall>k idx. active_violations s k = Some idx \<longrightarrow> idx < length (violations s)) \<and>
     inj_on (active_violations s) (dom (active_violations s))"

text \<open>The pair loop of \<open>_check_violations\<close> over a list of index pairs.\<close>

definition scan_violations ::
  "Aircraft list \<Rightarrow> real \<Rightarrow> (string \<times> string) set \<times> SafetyEvaluator \<Rightarrow> (nat \<times> nat) list
     \<Rightarrow> (string \<times> string) set \<times> SafetyEvaluator" where
  "scan_violations acs t st ps = foldl (\<lambda>st p. violation_step acs t st (fst p) (snd p)) st ps"

text \<open>What a scan leaves as it is.\<close>

definition same_observation :: "SeparationViolation \<Rightarrow> SeparationViolation \<Rightarrow> bool" where
  "same_observation v v' \<longleftrightarrow>
     v_aircraft1 v' = v_aircraft1 v \<and> v_aircraft2 v' = v_aircraft2 v \<and>
     v_timestamp v' = v_timestamp v \<and>
     v_horizontal_separation v' = v_horizontal_separation v \<and>
     v_vertical_separation v' = v_vertical_separation v \<and>
     v_severity v' = v_severity v \<and> v_duration v \<le> v_duration v'"

text \<open>
  An aircraft \<open>d\<close> NM east of \<open>boundary_a\<close> at its altitude, and the monitor after
  one tick with it 3 NM away and after a second tick with it 2 NM away.
\<close>

definition trailing_ac :: "real \<Rightarrow> Aircraft" where
  "trailing_ac d = mk_Aircraft ''D'' \<lparr>pos_x = d, pos_y = 0, pos_altitude = 10000\<rparr>
       \<lparr>speed = 300, heading = 0\<rparr> [] ''B737'' ENROUTE"

definition one_tick :: SafetyEvaluator where
  "one_tick = check_violations (mk_SafetyEvaluator mk_Airspace) [boundary_a, trailing_ac 3] 0"

definition two_ticks :: SafetyEvaluator where
  "two_ticks = check_violations one_tick [boundary_a, trailing_ac 2] 1"

text \<open>
  The words of the specification for near misses: the smaller of the two ratios of the
  separation to the required one, where a vertical separation of zero counts as an
  infinite ratio, and the record of a separated pair whose ratio is below 1.5.
\<close>

definition separation_ratio :: "Aircraft \<Rightarrow> Aircraft \<Rightarrow> xreal" where
  "separation_ratio a b =
     xmin (Fin (distance_to (position a) (position b)
                 / horizontal_nm (standard (pair_avg_altitude a b))))
          (if vertical_separation (position a) (position b) = 0 then PInf
           else Fin (vertical_separation (position a) (position b)
                      / vertical_ft (standard (pair_avg_altitude a b))))"

definition near_miss_of :: "Aircraft list \<Rightarrow> real \<Rightarrow> nat \<times> nat \<Rightarrow> NearMiss option" where
  "near_miss_of acs t p =
     (if is_separated (acs ! fst p) (acs ! snd p) \<and>
         xless (separation_ratio (acs ! fst p) (acs ! snd p)) (Fin 1.5)
      then Some \<lparr>nm_aircraft1 = callsign (acs ! fst p), nm_aircraft2 = callsign (acs ! snd p),
                 nm_timestamp = t,
                 nm_horizontal_separation =
                   distance_to (position (acs ! fst p)) (position (acs ! snd p)),
                 nm_vertical_separation =
                   vertical_separation (position (acs ! fst p)) (position (acs ! snd p)),
                 min_separation_ratio = separation_ratio (acs ! fst p) (acs ! snd p)\<rparr>
      else None)"

text \<open>Three aircraft: the first two a near miss, the first and the third in violation.\<close>

definition encounter :: "Aircraft list" where
  "encounter = [boundary_a, boundary_b, trailing_ac 3]"

text \<open>
  The pending targets within the limits, and the altitudes that the flight plan asks
  for within the altitude limits.
\<close>

definition targets_within_limits :: "Aircraft \<Rightarrow> bool" where
  "targets_within_limits a \<longleftrightarrow>
     (\<forall>alt. target_altitude a = Some alt \<longrightarrow> MIN_ALTITUDE \<le> alt \<and> alt \<le> MAX_ALTITUDE) \<and>
     (\<forall>hdg. target_heading a = Some hdg \<longrightarrow> 0 \<le> hdg \<and> hdg < 360) \<and>
     (\<forall>spd. target_speed a = Some spd \<longrightarrow> MIN_SPEED \<le> spd \<and> spd \<le> MAX_SPEED)"

definition plan_within_limits :: "Aircraft \<Rightarrow> bool" where
  "plan_within_limits a \<longleftrightarrow>
     (\<forall>wp \<in> set (flight_plan a). \<forall>alt. wp_altitude wp = Some alt \<longrightarrow>
        MIN_ALTITUDE \<le> alt \<and> alt \<le> MAX_ALTITUDE)"

section \<open>The kinematic update, field by field\<close>

lemma update_altitude_frame [simp]:
  "velocity (update_altitude a dt) = velocity a"
  "flight_plan (update_altitude a dt) = flight_plan a"
  "current_waypoint_index (update_altitude a dt) = current_waypoint_index a"
  "target_heading (update_altitude a dt) = target_heading a"
  "target_speed (update_altitude a dt) = target_speed a"
  "callsign (update_altitude a dt) = callsign a"
  "pos_x (position (update_altitude a dt)) = pos_x (position a)"
  "pos_y (position (update_altitude a dt)) = pos_y (position a)"
  by (simp_all add: update_altitude_def Let_def split: option.split)

lemma update_heading_frame [simp]:
  "position (update_heading a dt) = position a"
  "flight_plan (update_heading a dt) = flight_plan a"
  "current_waypoint_index (update_heading a dt) = current_waypoint_index a"
  "target_altitude (update_heading a dt) = target_altitude a"
  "target_speed (update_heading a dt) = target_speed a"
  "callsign (update_heading a dt) = callsign a"
  "speed (velocity (update_heading a dt)) = speed (velocity a)"
  by (simp_all add: update_heading_def normalize_heading_def Let_def split: option.split)

lemma update_speed_frame [simp]:
  "position (update_speed a dt) = position a"
  "flight_plan (update_speed a dt) = flight_plan a"
  "current_waypoint_index (update_speed a dt) = current_waypoint_index a"
  "target_altitude (update_speed a dt) = target_altitude a"
  "target_heading (update_speed a dt) = target_heading a"
  "callsign (update_speed a dt) = callsign a"
  "heading (velocity (update_speed a dt)) = heading (velocity a)"
  by (simp_all add: update_speed_def Let_def split: option.split)

lemma update_position_frame [simp]:
  "velocity (update_position a dt) = velocity a"
  "flight_plan (update_position a dt) = flight_plan a"
  "current_waypoint_index (update_position a dt) = current_waypoint_index a"
  "target_altitude (update_position a dt) = target_altitude a"
  "target_heading (update_position a dt) = target_heading a"
  "target_speed (update_position a dt) = target_speed a"
  "callsign (update_position a dt) = callsign a"
  "pos_altitude (position (update_position a dt)) = pos_altitude (position a)"
  by (simp_all add: update_position_def Let_def)

lemma check_waypoint_progress_frame [simp]:
  "position (check_waypoint_progress a) = position a"
  "velocity (check_waypoint_progress a) = velocity a"
  "flight_plan (check_waypoint_progress a) = flight_plan a"
  "target_altitude (check_waypoint_progress a) = target_altitude a"
  "target_heading (check_waypoint_progress a) = target_heading a"
  "target_speed (check_waypoint_progress a) = target_speed a"
  "callsign (check_waypoint_progress a) = callsign a"
  by (simp_all add: check_waypoint_progress_def Let_def)

lemma update_altitude_eq:
  "pos_altitude (position (update a dt)) =
     pos_altitude (position (update_altitude (a\<lparr>time_in_simulation := time_in_simulation a + dt\<rparr>) dt))"
  "target_altitude (update a dt) =
     target_altitude (update_altitude (a\<lparr>time_in_simulation := time_in_simulation a + dt\<rparr>) dt)"
  by (simp_all add: update_def Let_def)

lemma update_heading_eq:
  "heading (velocity (update a dt)) =
     heading (velocity (update_heading (update_altitude (a\<lparr>time_in_simulation := time_in_simulation a + dt\<rparr>) dt) dt))"
  "target_heading (update a dt) =
     target_heading (update_heading (update_altitude (a\<lparr>time_in_simulation := time_in_simulation a + dt\<rparr>) dt) dt)"
  by (simp_all add: update_def Let_def)

lemma update_speed_eq:
  "speed (velocity (update a dt)) =
     speed (velocity (update_speed (a\<lparr>time_in_simulation := time_in_simulation a + dt\<rparr>) dt))"
  "target_speed (update a dt) =
     target_speed (update_speed (a\<lparr>time_in_simulation := time_in_simulation a + dt\<rparr>) dt)"
   apply (simp_all add: update_def Let_def)
   apply (simp_all add: update_speed_def Let_def split: option.split)
  done

section \<open>The pair loop and the conflict scan\<close>

lemma sample_step_eq:
  "sample_step a b (mh, mv, tm) t =
     (if xless (Fin (sampled_horizontal a b t)) mh
      then (Fin (sampled_horizontal a b t), Fin (sampled_vertical a b t), t)
      else (mh, mv, tm))"
  by (simp add: sample_step_def sampled_horizontal_def sampled_vertical_def Let_def)

lemma is_cpa_sample_unique:
  assumes "is_cpa_sample a b n t" "is_cpa_sample a b n t'"
  shows "t = t'"
proof (rule ccontr)
  assume "t \<noteq> t'"
  then consider "t < t'" | "t' < t" by linarith
  then show False
  proof cases
    case 1
    with assms have "sampled_horizontal a b t' < sampled_horizontal a b t"
      "sampled_horizontal a b t \<le> sampled_horizontal a b t'"
      by (auto simp: is_cpa_sample_def)
    then show False by simp
  next
    case 2
    with assms have "sampled_horizontal a b t < sampled_horizontal a b t'"
      "sampled_horizontal a b t' \<le> sampled_horizontal a b t"
      by (auto simp: is_cpa_sample_def)
    then show False by simp
  qed
qed

lemma scan_Suc:
  "\<exists>t. is_cpa_sample a b (Suc n) t \<and>
       foldl (sample_step a b) (PInf, PInf, 0) [0..<Suc n] =
         (Fin (sampled_horizontal a b t), Fin (sampled_vertical a b t), t)"
proof (induction n)
  case 0
  have "is_cpa_sample a b (Suc 0) 0" by (simp add: is_cpa_sample_def)
  moreover have "foldl (sample_step a b) (PInf, PInf, 0) [0..<Suc 0] =
      (Fin (sampled_horizontal a b 0), Fin (sampled_vertical a b 0), 0)"
    by (simp add: sample_step_eq)
  ultimately show ?case by blast
next
  case (Suc n)
  then obtain t where c: "is_cpa_sample a b (Suc n) t"
    and f: "foldl (sample_step a b) (PInf, PInf, 0) [0..<Suc n] =
         (Fin (sampled_horizontal a b t), Fin (sampled_vertical a b t), t)" by blast
  have step: "foldl (sample_step a b) (PInf, PInf, 0) [0..<Suc (Suc n)] =
      sample_step a b (Fin (sampled_horizontal a b t), Fin (sampled_vertical a b t), t) (Suc n)"
    using f by simp
  show ?case
  proof (cases "sampled_horizontal a b (Suc n) < sampled_horizontal a b t")
    case True
    have "is_cpa_sample a b (Suc (Suc n)) (Suc n)"
      unfolding is_cpa_sample_def
    proof (intro conjI ballI)
      show "Suc n < Suc (Suc n)" by simp
    next
      fix s assume "s \<in> {0..<Suc (Suc n)}"
      then have "s < Suc (Suc n)" by simp
      then consider "s = Suc n" | "s < Suc n" by linarith
      then show "sampled_horizontal a b (Suc n) \<le> sampled_horizontal a b s"
      proof cases
        case 1
        then show ?thesis by simp
      next
        case 2
        then have "s \<in> {0..<Suc n}" by simp
        with c have "sampled_horizontal a b t \<le> sampled_horizontal a b s"
          unfolding is_cpa_sample_def by blast
        with True show ?thesis by linarith
      qed
    next
      fix s assume "s \<in> {0..<Suc n}"
      with c have "sampled_horizontal a b t \<le> sampled_horizontal a b s"
        unfolding is_cpa_sample_def by blast
      with True show "sampled_horizontal a b (Suc n) < sampled_horizontal a b s" by linarith
    qed
    moreover have "foldl (sample_step a b) (PInf, PInf, 0) [0..<Suc (Suc n)] =
       (Fin (sampled_horizontal a b (Suc n)), Fin (sampled_vertical a b (Suc n)), Suc n)"
      using True by (simp only: step sample_step_eq xless.simps if_True)
    ultimately show ?thesis by blast
  next
    case False
    have "is_cpa_sample a b (Suc (Suc n)) t"
      unfolding is_cpa_sample_def
    proof (intro conjI ballI)
      show "t < Suc (Suc n)" using c by (simp add: is_cpa_sample_def)
    next
      fix s assume "s \<in> {0..<Suc (Suc n)}"
      then have "s = Suc n \<or> s \<in> {0..<Suc n}" by auto
      then show "sampled_horizontal a b t \<le> sampled_horizontal a b s"
        using c False by (auto simp: is_cpa_sample_def)
    next
      fix s assume "s \<in> {0..<t}"
      then show "sampled_horizontal a b t < sampled_horizontal a b s"
        using c by (auto simp: is_cpa_sample_def)
    qed
    moreover have "foldl (sample_step a b) (PInf, PInf, 0) [0..<Suc (Suc n)] =
       (Fin (sampled_horizontal a b t), Fin (sampled_vertical a b t), t)"
      using False by (simp only: step sample_step_eq xless.simps if_False)
    ultimately show ?thesis by blast
  qed
qed

lemma scan_cpa:
  assumes "is_cpa_sample a b n t"
  shows "foldl (sample_step a b) (PInf, PInf, 0) [0..<n] =
         (Fin (sampled_horizontal a b t), Fin (sampled_vertical a b t), t)"
proof -
  from assms have "0 < n" by (auto simp: is_cpa_sample_def)
  then obtain m where n: "n = Suc m" by (cases n) auto
  from scan_Suc [of a b m] obtain t' where c: "is_cpa_sample a b (Suc m) t'"
    and f: "foldl (sample_step a b) (PInf, PInf, 0) [0..<Suc m] =
         (Fin (sampled_horizontal a b t'), Fin (sampled_vertical a b t'), t')" by blast
  from is_cpa_sample_unique [OF c] assms n have "t' = t" by simp
  with f n show ?thesis by simp
qed

lemma cpa_exists: "0 < n \<Longrightarrow> \<exists>t. is_cpa_sample a b n t"
  using scan_Suc [of a b "n - 1"] by auto

lemma check_pair_cpa:
  assumes "is_cpa_sample a b (nat (py_int L)) t"
  shows "check_pair_for_conflict a b L =
     (if sampled_horizontal a b t
           < horizontal_nm (standard (pair_avg_altitude a b)) \<and>
         sampled_vertical a b t
           < vertical_ft (standard (pair_avg_altitude a b))
      then Some (conflict_at a b t) else None)"
  by (simp add: check_pair_for_conflict_def scan_cpa [OF assms] conflict_at_def
        pair_avg_altitude_def Let_def)

lemma check_pair_no_sample:
  "nat (py_int L) = 0 \<Longrightarrow> check_pair_for_conflict a b L = None"
  by (simp add: check_pair_for_conflict_def Let_def)

lemma check_pair_iff:
  "check_pair_for_conflict a b L = Some c \<longleftrightarrow>
     (\<exists>t. is_cpa_sample a b (nat (py_int L)) t \<and>
        sampled_horizontal a b t
           < horizontal_nm (standard (pair_avg_altitude a b)) \<and>
        sampled_vertical a b t
           < vertical_ft (standard (pair_avg_altitude a b)) \<and>
        c = conflict_at a b t)"
proof (cases "nat (py_int L) = 0")
  case True
  then show ?thesis by (auto simp: check_pair_no_sample is_cpa_sample_def)
next
  case False
  then obtain t where t: "is_cpa_sample a b (nat (py_int L)) t"
    using cpa_exists by blast
  show ?thesis
  proof
    assume "check_pair_for_conflict a b L = Some c"
    with check_pair_cpa [OF t] t show "\<exists>t. is_cpa_sample a b (nat (py_int L)) t \<and>
        sampled_horizontal a b t
           < horizontal_nm (standard (pair_avg_altitude a b)) \<and>
        sampled_vertical a b t
           < vertical_ft (standard (pair_avg_altitude a b)) \<and>
        c = conflict_at a b t"
      by (auto split: if_splits)
  next
    assume "\<exists>t. is_cpa_sample a b (nat (py_int L)) t \<and>
        sampled_horizontal a b t
           < horizontal_nm (standard (pair_avg_altitude a b)) \<and>
        sampled_vertical a b t
           < vertical_ft (standard (pair_avg_altitude a b)) \<and>
        c = conflict_at a b t"
    then obtain t' where t': "is_cpa_sample a b (nat (py_int L)) t'"
      and r: "sampled_horizontal a b t'
           < horizontal_nm (standard (pair_avg_altitude a b))"
        "sampled_vertical a b t'
           < vertical_ft (standard (pair_avg_altitude a b))"
        "c = conflict_at a b t'" by blast
    from check_pair_cpa [OF t'] r show "check_pair_for_conflict a b L = Some c" by simp
  qed
qed

lemma foldl_concat_lists:
  "foldl f s (concat xss) = foldl (foldl f) s xss"
  by (induction xss arbitrary: s) simp_all

lemma for_pairs_index_pairs:
  "for_pairs n body s = foldl (\<lambda>s (i, j). body s i j) s (index_pairs n)"
proof -
  have inner: "foldl (\<lambda>s (i, j). body s i j) s' (map (Pair i) js) = foldl (\<lambda>s j. body s i j) s' js"
    for s' i js
    by (induction js arbitrary: s') simp_all
  have "foldl (foldl (\<lambda>s (i, j). body s i j)) s' (map (\<lambda>i. map (Pair i) [i + 1..<n]) is)
      = foldl (\<lambda>s i. foldl (\<lambda>s' j. body s' i j) s [i + 1..<n]) s' is" for s' "is"
    by (induction "is" arbitrary: s') (simp_all add: inner)
  then show ?thesis
    by (simp add: for_pairs_def index_pairs_def foldl_concat_lists)
qed

lemma mem_index_pairs: "(i, j) \<in> set (index_pairs n) \<longleftrightarrow> i < j \<and> j < n"
proof
  assume "(i, j) \<in> set (index_pairs n)"
  then show "i < j \<and> j < n" by (auto simp: index_pairs_def)
next
  assume a: "i < j \<and> j < n"
  then have "(i, j) \<in> set (map (Pair i) [i + 1..<n])" by simp
  moreover from a have "i \<in> set [0..<n]" by simp
  ultimately have "\<exists>k\<in>set [0..<n]. (i, j) \<in> set (map (Pair k) [k + 1..<n])" by blast
  then show "(i, j) \<in> set (index_pairs n)"
    by (simp add: index_pairs_def)
qed

lemma set_index_pairs: "set (index_pairs n) = {(i, j). i < j \<and> j < n}"
  using mem_index_pairs by blast

lemma distinct_pairs_of:
  "distinct is \<Longrightarrow> (\<And>i. distinct (f i)) \<Longrightarrow>
     distinct (concat (map (\<lambda>i. map (Pair i) (f i)) is))"
  by (induction "is") (auto simp: distinct_map inj_on_def)

lemma distinct_index_pairs: "distinct (index_pairs n)"
  unfolding index_pairs_def by (rule distinct_pairs_of) simp_all

lemma foldl_collect:
  "foldl (\<lambda>cs (i, j). case g i j of Some c \<Rightarrow> cs @ [c] | None \<Rightarrow> cs) acc ps =
     acc @ List.map_filter (\<lambda>(i, j). g i j) ps"
  by (induction ps arbitrary: acc) (auto simp: List.map_filter_simps split: option.splits)

lemma detect_conflicts_pairs:
  "fst (detect_conflicts self acs L) =
     List.map_filter (\<lambda>(i, j). check_pair_for_conflict (acs ! i) (acs ! j) L)
       (index_pairs (length acs))"
  by (simp add: detect_conflicts_def Let_def for_pairs_index_pairs foldl_collect)

section \<open>The head-on scenario\<close>

lemma closing_scenario_100: "closing_scenario 100 = conflict_scenario"
  by (simp add: closing_scenario_def closing_ac2_def conflict_scenario_def conflict_scenario_ac2_def mk_Aircraft_def)

lemma radians_90: "radians 90 = pi / 2" by (simp add: radians_def)
lemma radians_270: "radians 270 = 3 * pi / 2" by (simp add: radians_def)
lemma sin_270: "sin (3 * pi / 2) = - 1" using sin_3over2_pi by simp
lemma cos_270: "cos (3 * pi / 2) = 0" using cos_3over2_pi by simp

lemma east_predict:
  "predict_position conflict_scenario_ac1 t =
     \<lparr>pos_x = 50 + t / 8, pos_y = 100, pos_altitude = 35000\<rparr>"
  by (simp add: predict_position_def conflict_scenario_ac1_def mk_Aircraft_def radians_90 Let_def)

lemma west_predict:
  "predict_position (closing_ac2 gap) t =
     \<lparr>pos_x = 50 + gap - t / 8, pos_y = 100, pos_altitude = 35000\<rparr>"
  by (simp add: predict_position_def closing_ac2_def conflict_scenario_ac2_def mk_Aircraft_def
      radians_270 sin_270 cos_270 Let_def)

lemma distance_to_same_y:
  "pos_y p = pos_y q \<Longrightarrow> distance_to p q = \<bar>pos_x p - pos_x q\<bar>"
  by (simp add: distance_to_def)

lemma closing_horizontal:
  "sampled_horizontal conflict_scenario_ac1 (closing_ac2 gap) t = \<bar>gap - real t / 4\<bar>"
proof -
  have e: "50 + real t / 8 - (50 + gap - real t / 8) = - (gap - real t / 4)" by simp
  have "sampled_horizontal conflict_scenario_ac1 (closing_ac2 gap) t =
      \<bar>50 + real t / 8 - (50 + gap - real t / 8)\<bar>"
    unfolding sampled_horizontal_def east_predict west_predict
    by (subst distance_to_same_y) simp_all
  also have "\<dots> = \<bar>gap - real t / 4\<bar>"
    unfolding e by (rule abs_minus_cancel)
  finally show ?thesis .
qed

lemma closing_vertical:
  "sampled_vertical conflict_scenario_ac1 (closing_ac2 gap) t = 0"
  by (simp add: sampled_vertical_def east_predict west_predict)

lemma closing_cpa:
  assumes "74.75 \<le> gap"
  shows "is_cpa_sample conflict_scenario_ac1 (closing_ac2 gap) 300 299"
  unfolding is_cpa_sample_def closing_horizontal
proof (intro conjI ballI)
  show "(299::nat) < 300" by simp
next
  fix s :: nat assume "s \<in> {0..<300}"
  then have "real s \<le> 299" by simp
  with assms show "\<bar>gap - real 299 / 4\<bar> \<le> \<bar>gap - real s / 4\<bar>" by simp
next
  fix s :: nat assume "s \<in> {0..<299}"
  then have "s + 1 \<le> 299" by simp
  then have "real s + 1 \<le> 299" by linarith
  with assms show "\<bar>gap - real 299 / 4\<bar> < \<bar>gap - real s / 4\<bar>" by simp
qed

lemma closing_avg:
  "pair_avg_altitude conflict_scenario_ac1 (closing_ac2 gap) = 35000"
  by (simp add: pair_avg_altitude_def closing_ac2_def conflict_scenario_ac1_def mk_Aircraft_def)

lemma py_int_300: "nat (py_int 300) = 300" by (simp add: py_int_def)

lemma closing_check_pair:
  assumes "74.75 \<le> gap"
  shows "check_pair_for_conflict conflict_scenario_ac1 (closing_ac2 gap) 300 =
     (if gap < 79.75 then
        Some \<lparr>aircraft1 = ''UAL100'', aircraft2 = ''AAL200'', time_to_cpa = 299,
              horizontal_separation_at_cpa = gap - 74.75, vertical_separation_at_cpa = 0,
              severity = (if gap < 77.25 then ''high'' else if gap < 78.5 then ''medium'' else ''low'')\<rparr>
      else None)"
proof -
  have c: "is_cpa_sample conflict_scenario_ac1 (closing_ac2 gap) (nat (py_int 300)) 299"
    using closing_cpa [OF assms] by (simp only: py_int_300)
  have h: "\<bar>gap - 299 / 4\<bar> = gap - 74.75" using assms by simp
  have cs: "callsign conflict_scenario_ac1 = ''UAL100''" "callsign (closing_ac2 gap) = ''AAL200''"
    by (simp_all add: closing_ac2_def conflict_scenario_ac1_def conflict_scenario_ac2_def mk_Aircraft_def)
  show ?thesis
    unfolding check_pair_cpa [OF c] conflict_at_def closing_avg closing_horizontal closing_vertical cs
    using assms by (simp add: standard_def calculate_severity_def h)
qed

lemma index_pairs_2: "index_pairs 2 = [(0, 1)]"
  by (simp add: index_pairs_def numeral_2_eq_2)

lemma closing_detect:
  assumes "74.75 \<le> gap"
  shows "fst (detect_conflicts asp (closing_scenario gap) 300) =
     (if gap < 79.75 then
        [\<lparr>aircraft1 = ''UAL100'', aircraft2 = ''AAL200'', time_to_cpa = 299,
              horizontal_separation_at_cpa = gap - 74.75, vertical_separation_at_cpa = 0,
              severity = (if gap < 77.25 then ''high'' else if gap < 78.5 then ''medium'' else ''low'')\<rparr>]
      else [])"
proof -
  have l: "length (closing_scenario gap) = 2" by (simp add: closing_scenario_def)
  have n: "closing_scenario gap ! 0 = conflict_scenario_ac1" "closing_scenario gap ! 1 = closing_ac2 gap"
    by (simp_all add: closing_scenario_def)
  have "fst (detect_conflicts asp (closing_scenario gap) 300) =
      (case check_pair_for_conflict conflict_scenario_ac1 (closing_ac2 gap) 300 of
         None \<Rightarrow> [] | Some c \<Rightarrow> [c])"
    unfolding detect_conflicts_pairs l index_pairs_2
    by (simp add: List.map_filter_simps closing_scenario_def split: option.split)
  then show ?thesis
    by (simp add: closing_check_pair [OF assms])
qed

section \<open>Claims about the kinematic model\<close>

text \<open>
  C1. The claim: after any updates and instructions the altitude is in [1000, 45000] ft,
  the speed in [120, 550] kt and the heading in [0, 360). The code enforces the altitude
  limits at the end of \<open>_update_altitude\<close>, but the branch that snaps to a target
  within 10 ft returns before it, and a target taken from the flight plan is not clamped
  as one set by \<open>set_altitude\<close> is. An aircraft within all limits at 1000 ft, whose
  waypoint asks for 995 ft, is at 995 ft after two updates of one second.
\<close>

theorem update_snap_leaves_altitude_limits:
  "within_limits snap_aircraft \<and>
   target_altitude (update snap_aircraft 1) = Some 995 \<and>
   pos_altitude (position (update (update snap_aircraft 1) 1)) = 995 \<and>
   \<not> within_limits (update (update snap_aircraft 1) 1)"
proof -
  have w: "within_limits snap_aircraft"
    by (simp add: within_limits_def snap_aircraft_def mk_Aircraft_def limits_defs)
  have t1: "target_altitude (update snap_aircraft 1) = Some 995"
    by (simp add: update_altitude_eq snap_aircraft_def mk_Aircraft_def update_altitude_def)
  have t2: "pos_altitude (position (update snap_aircraft 1)) = 1000"
    by (simp add: update_altitude_eq snap_aircraft_def mk_Aircraft_def update_altitude_def)
  have t3: "pos_altitude (position (update (update snap_aircraft 1) 1)) = 995"
    by (simp add: update_altitude_eq(1) [of "update snap_aircraft 1"] update_altitude_def t1 t2)
  from t3 have "\<not> within_limits (update (update snap_aircraft 1) 1)"
    by (simp add: within_limits_def limits_defs)
  with w t1 t3 show ?thesis by simp
qed

text \<open>
  C10. With no pending altitude target and a current waypoint, one update leaves the
  altitude as it is and makes the waypoint's altitude (if it has one) the pending
  target; with no pending heading target, it leaves the heading as it is and makes
  the bearing from the position at the start of the tick to the waypoint the pending
  target. The aircraft starts to move toward such a target on the next update.
\<close>

theorem update_acquires_flight_plan_target:
  "current_waypoint_index a < length (flight_plan a) \<longrightarrow>
     (target_altitude a = None \<longrightarrow>
        pos_altitude (position (update a dt)) = pos_altitude (position a) \<and>
        target_altitude (update a dt) = wp_altitude (flight_plan a ! current_waypoint_index a)) \<and>
     (target_heading a = None \<longrightarrow>
        heading (velocity (update a dt)) = heading (velocity a) \<and>
        target_heading (update a dt) =
          Some (calculate_heading_to_waypoint a (flight_plan a ! current_waypoint_index a)))"
proof (intro impI conjI)
  assume wp: "current_waypoint_index a < length (flight_plan a)" and t: "target_altitude a = None"
  show "pos_altitude (position (update a dt)) = pos_altitude (position a)"
    using wp t by (simp add: update_altitude_eq update_altitude_def split: option.split)
  show "target_altitude (update a dt) = wp_altitude (flight_plan a ! current_waypoint_index a)"
    using wp t by (simp add: update_altitude_eq update_altitude_def split: option.split)
next
  assume wp: "current_waypoint_index a < length (flight_plan a)" and t: "target_heading a = None"
  show "heading (velocity (update a dt)) = heading (velocity a)"
    using wp t by (simp add: update_heading_eq update_heading_def)
  show "target_heading (update a dt) =
          Some (calculate_heading_to_waypoint a (flight_plan a ! current_waypoint_index a))"
    using wp t by (simp add: update_heading_eq update_heading_def calculate_heading_to_waypoint_def)
qed

theorem update_acquires_flight_plan_target_witness:
  "pos_altitude (position (update conflict_scenario_ac1 1)) = 35000 \<and>
   target_altitude (update conflict_scenario_ac1 1) = Some 35000 \<and>
   heading (velocity (update conflict_scenario_ac1 1)) = 90 \<and>
   target_heading (update conflict_scenario_ac1 1) = Some 90"
proof -
  have c: "current_waypoint_index conflict_scenario_ac1 < length (flight_plan conflict_scenario_ac1)"
    "target_altitude conflict_scenario_ac1 = None" "target_heading conflict_scenario_ac1 = None"
    by (simp_all add: conflict_scenario_ac1_def mk_Aircraft_def)
  have b: "calculate_heading_to_waypoint conflict_scenario_ac1
             (flight_plan conflict_scenario_ac1 ! current_waypoint_index conflict_scenario_ac1) = 90"
    by (simp add: calculate_heading_to_waypoint_def conflict_scenario_ac1_def mk_Aircraft_def
          atan2_def degrees_def py_mod_def)
  from update_acquires_flight_plan_target [of conflict_scenario_ac1 1] c b
  show ?thesis by (simp add: conflict_scenario_ac1_def mk_Aircraft_def)
qed

section \<open>Claims about separation and conflict detection\<close>

text \<open>
  C2. Two aircraft are separated exactly when their horizontal distance reaches the
  required horizontal separation or their vertical separation reaches the required
  vertical one; the requirement is that of the pair's average altitude: 5 NM, and
  1000 ft below 29000 ft, else 2000 ft. A pair at exactly 5 NM and 1000 ft below
  29000 ft is separated; a pair at 4.99 NM and 999 ft is not.
\<close>

theorem is_separated_either_axis:
  "(is_separated a b \<longleftrightarrow>
      horizontal_nm (standard (pair_avg_altitude a b)) \<le> distance_to (position a) (position b) \<or>
      vertical_ft (standard (pair_avg_altitude a b))
        \<le> vertical_separation (position a) (position b)) \<and>
   horizontal_nm (standard alt) = 5 \<and>
   vertical_ft (standard alt) = (if alt < 29000 then 1000 else 2000) \<and>
   (pair_avg_altitude a b < 29000 \<and> distance_to (position a) (position b) = 5 \<and>
      vertical_separation (position a) (position b) = 1000 \<longrightarrow> is_separated a b) \<and>
   (distance_to (position a) (position b) = 4.99 \<and>
      vertical_separation (position a) (position b) = 999 \<longrightarrow> \<not> is_separated a b)"
  by (simp add: is_separated_def check_separation_def standard_def pair_avg_altitude_def Let_def)

theorem is_separated_either_axis_witness:
  "is_separated boundary_a boundary_b \<and> \<not> is_separated boundary_a boundary_c"
proof -
  have d1: "distance_to (position boundary_a) (position boundary_b) = 5"
    by (simp add: distance_to_same_y boundary_a_def boundary_b_def mk_Aircraft_def)
  have v1: "vertical_separation (position boundary_a) (position boundary_b) = 1000"
    by (simp add: vertical_separation_def boundary_a_def boundary_b_def mk_Aircraft_def)
  have a1: "pair_avg_altitude boundary_a boundary_b < 29000"
    by (simp add: pair_avg_altitude_def boundary_a_def boundary_b_def mk_Aircraft_def)
  have d2: "distance_to (position boundary_a) (position boundary_c) = 4.99"
    by (simp add: distance_to_same_y boundary_a_def boundary_c_def mk_Aircraft_def)
  have v2: "vertical_separation (position boundary_a) (position boundary_c) = 999"
    by (simp add: vertical_separation_def boundary_a_def boundary_c_def mk_Aircraft_def)
  from is_separated_either_axis [of boundary_a boundary_b 0] d1 v1 a1
  have s1: "is_separated boundary_a boundary_b" by blast
  from is_separated_either_axis [of boundary_a boundary_c 0] d2 v2
  have s2: "\<not> is_separated boundary_a boundary_c" by blast
  from s1 s2 show ?thesis by simp
qed

text \<open>
  C3. For a pair, the scan of \<open>_check_pair_for_conflict\<close> returns a conflict exactly
  when, at the sample \<open>t\<close> of minimum horizontal separation among the integer offsets
  below \<open>int(lookahead_time)\<close>, the horizontal separation is below the required one
  and the vertical separation at that same sample is below the required one; the
  conflict carries \<open>t\<close> as \<open>time_to_cpa\<close> and the two separations of that sample.
  The predicted altitude is the current one, so the sampled vertical separation is the
  current one. \<open>detect_conflicts\<close> returns the conflicts of the pairs \<open>i < j\<close>, each
  pair checked once.
\<close>

theorem detect_conflicts_samples_cpa:
  "(check_pair_for_conflict a b L = Some c \<longleftrightarrow>
      (\<exists>t. is_cpa_sample a b (nat (py_int L)) t \<and>
         sampled_horizontal a b t < horizontal_nm (standard (pair_avg_altitude a b)) \<and>
         sampled_vertical a b t < vertical_ft (standard (pair_avg_altitude a b)) \<and>
         c = conflict_at a b t)) \<and>
   time_to_cpa (conflict_at a b t') = real t' \<and>
   sampled_vertical a b t' = \<bar>pos_altitude (position a) - pos_altitude (position b)\<bar> \<and>
   fst (detect_conflicts self acs L) =
     List.map_filter (\<lambda>(i, j). check_pair_for_conflict (acs ! i) (acs ! j) L)
       (index_pairs (length acs)) \<and>
   set (index_pairs n) = {(i, j). i < j \<and> j < n} \<and>
   distinct (index_pairs n)"
proof (intro conjI)
  show "check_pair_for_conflict a b L = Some c \<longleftrightarrow>
      (\<exists>t. is_cpa_sample a b (nat (py_int L)) t \<and>
         sampled_horizontal a b t < horizontal_nm (standard (pair_avg_altitude a b)) \<and>
         sampled_vertical a b t < vertical_ft (standard (pair_avg_altitude a b)) \<and>
         c = conflict_at a b t)"
    by (rule check_pair_iff)
  show "time_to_cpa (conflict_at a b t') = real t'"
    by (simp add: conflict_at_def)
  show "sampled_vertical a b t' = \<bar>pos_altitude (position a) - pos_altitude (position b)\<bar>"
    by (simp add: sampled_vertical_def predict_position_def Let_def)
  show "fst (detect_conflicts self acs L) =
     List.map_filter (\<lambda>(i, j). check_pair_for_conflict (acs ! i) (acs ! j) L)
       (index_pairs (length acs))"
    by (rule detect_conflicts_pairs)
  show "set (index_pairs n) = {(i, j). i < j \<and> j < n}"
    by (rule set_index_pairs)
  show "distinct (index_pairs n)"
    by (rule distinct_index_pairs)
qed

theorem detect_conflicts_samples_cpa_witness:
  "check_pair_for_conflict conflict_scenario_ac1 (closing_ac2 75) 300 =
     Some (conflict_at conflict_scenario_ac1 (closing_ac2 75) 299) \<and>
   time_to_cpa (conflict_at conflict_scenario_ac1 (closing_ac2 75) 299) = 299"
proof -
  have c: "is_cpa_sample conflict_scenario_ac1 (closing_ac2 75) (nat (py_int 300)) 299"
    using closing_cpa [of 75] by (simp only: py_int_300) simp
  have h: "sampled_horizontal conflict_scenario_ac1 (closing_ac2 75) 299
      < horizontal_nm (standard (pair_avg_altitude conflict_scenario_ac1 (closing_ac2 75)))"
    by (simp add: closing_horizontal closing_avg standard_def)
  have v: "sampled_vertical conflict_scenario_ac1 (closing_ac2 75) 299
      < vertical_ft (standard (pair_avg_altitude conflict_scenario_ac1 (closing_ac2 75)))"
    by (simp add: closing_vertical closing_avg standard_def)
  note inst = detect_conflicts_samples_cpa [of conflict_scenario_ac1 "closing_ac2 75" 300
      "conflict_at conflict_scenario_ac1 (closing_ac2 75) 299" 299 mk_Airspace "[]" 0]
  from inst c h v
  have "check_pair_for_conflict conflict_scenario_ac1 (closing_ac2 75) 300 =
     Some (conflict_at conflict_scenario_ac1 (closing_ac2 75) 299)" by blast
  moreover from inst
  have "time_to_cpa (conflict_at conflict_scenario_ac1 (closing_ac2 75) 299) = 299" by simp
  ultimately show ?thesis by simp
qed

text \<open>
  C4. The claim: for the head-on scenario, \<open>detect_conflicts\<close> with the lookahead of
  300 s returns a conflict with a horizontal separation under 5 NM and severity high.
  The gap of 100 NM closes at 900 kt, a quarter of a mile each second: over the samples
  0 to 299 the smallest separation is 25.25 NM, so no conflict is returned.
\<close>

theorem conflict_scenario_not_detected:
  "\<not> (\<exists>c \<in> set (fst (detect_conflicts mk_Airspace conflict_scenario default_lookahead_time)).
        horizontal_separation_at_cpa c < 5 \<and> severity c = ''high'')"
proof -
  have "fst (detect_conflicts mk_Airspace (closing_scenario 100) 300) = []"
    using closing_detect [of 100 mk_Airspace] by simp
  then show ?thesis
    by (simp add: closing_scenario_100 default_lookahead_time_def)
qed

text \<open>
  C4, as amended. With the second aircraft \<open>gap\<close> NM east of the first, and the gap at
  least 74.75 NM, the sample of minimum separation is the last one, 299 s, with
  \<open>gap - 74.75\<close> NM. The pair is reported exactly when the gap is below 79.75 NM, with
  severity high exactly when it is below 77.25 NM. The scenario itself, at 100 NM, is
  not reported.
\<close>

theorem closing_scenario_detection:
  "closing_scenario 100 = conflict_scenario \<and>
   (74.75 \<le> gap \<longrightarrow>
      fst (detect_conflicts asp (closing_scenario gap) default_lookahead_time) =
        (if gap < 79.75 then
           [\<lparr>aircraft1 = ''UAL100'', aircraft2 = ''AAL200'', time_to_cpa = 299,
             horizontal_separation_at_cpa = gap - 74.75, vertical_separation_at_cpa = 0,
             severity = (if gap < 77.25 then ''high''
                         else if gap < 78.5 then ''medium'' else ''low'')\<rparr>]
         else []))"
proof (intro conjI impI)
  show "closing_scenario 100 = conflict_scenario"
    by (rule closing_scenario_100)
next
  assume "74.75 \<le> gap"
  then show "fst (detect_conflicts asp (closing_scenario gap) default_lookahead_time) =
        (if gap < 79.75 then
           [\<lparr>aircraft1 = ''UAL100'', aircraft2 = ''AAL200'', time_to_cpa = 299,
             horizontal_separation_at_cpa = gap - 74.75, vertical_separation_at_cpa = 0,
             severity = (if gap < 77.25 then ''high''
                         else if gap < 78.5 then ''medium'' else ''low'')\<rparr>]
         else [])"
    unfolding default_lookahead_time_def by (rule closing_detect)
qed

theorem closing_scenario_detection_witness:
  "fst (detect_conflicts mk_Airspace conflict_scenario default_lookahead_time) = [] \<and>
   fst (detect_conflicts mk_Airspace (closing_scenario 75) default_lookahead_time) =
     [\<lparr>aircraft1 = ''UAL100'', aircraft2 = ''AAL200'', time_to_cpa = 299,
       horizontal_separation_at_cpa = 0.25, vertical_separation_at_cpa = 0,
       severity = ''high''\<rparr>]"
  using closing_scenario_detection [of 100 mk_Airspace]
    closing_scenario_detection [of 75 mk_Airspace]
  by simp

section \<open>The resolution policy\<close>

lemma issue_altitude_change:
  "issue_instruction self acs (altitude_change cs t alt p) k =
     Inr (logged self (altitude_change cs t alt p), acs[k := set_altitude (acs ! k) alt])"
  by (simp add: issue_instruction_def altitude_change_def get_num_def logged_def)

lemma issue_heading_change:
  "issue_instruction self acs (heading_change cs t hdg p) k =
     Inr (logged self (heading_change cs t hdg p), acs[k := set_heading (acs ! k) hdg])"
  by (simp add: issue_instruction_def heading_change_def get_num_def logged_def)

lemma vertical_ft_standard: "vertical_ft (standard alt) = 1000 \<or> vertical_ft (standard alt) = 2000"
  by (simp add: standard_def)

lemma try_altitude_lower:
  assumes "MIN_ALTITUDE \<le> pos_altitude (position (acs ! lower_index acs k1 k2))
             - vertical_ft (standard (pair_avg_altitude (acs ! k1) (acs ! k2))) - 1000"
  shows "try_altitude_resolution self acs k1 k2 c t =
     Inr (True,
          logged self
            (altitude_change (callsign (acs ! lower_index acs k1 k2)) t
               (pos_altitude (position (acs ! lower_index acs k1 k2))
                  - vertical_ft (standard (pair_avg_altitude (acs ! k1) (acs ! k2))) - 1000)
               (conflict_priority c)),
          acs[lower_index acs k1 k2 :=
                set_altitude (acs ! lower_index acs k1 k2)
                  (pos_altitude (position (acs ! lower_index acs k1 k2))
                     - vertical_ft (standard (pair_avg_altitude (acs ! k1) (acs ! k2))) - 1000)])"
  using assms
  unfolding try_altitude_resolution_def Let_def
    lower_index_def [symmetric] pair_avg_altitude_def [symmetric]
    altitude_change_def [symmetric] conflict_priority_def [symmetric]
  by (simp add: issue_altitude_change)

lemma try_altitude_higher:
  assumes "\<not> MIN_ALTITUDE \<le> pos_altitude (position (acs ! lower_index acs k1 k2))
             - vertical_ft (standard (pair_avg_altitude (acs ! k1) (acs ! k2))) - 1000"
    and "pos_altitude (position (acs ! higher_index acs k1 k2))
             + vertical_ft (standard (pair_avg_altitude (acs ! k1) (acs ! k2))) + 1000 \<le> MAX_ALTITUDE"
  shows "try_altitude_resolution self acs k1 k2 c t =
     Inr (True,
          logged self
            (altitude_change (callsign (acs ! higher_index acs k1 k2)) t
               (pos_altitude (position (acs ! higher_index acs k1 k2))
                  + vertical_ft (standard (pair_avg_altitude (acs ! k1) (acs ! k2))) + 1000)
               (conflict_priority c)),
          acs[higher_index acs k1 k2 :=
                set_altitude (acs ! higher_index acs k1 k2)
                  (pos_altitude (position (acs ! higher_index acs k1 k2))
                     + vertical_ft (standard (pair_avg_altitude (acs ! k1) (acs ! k2))) + 1000)])"
  using assms
  unfolding try_altitude_resolution_def Let_def
    lower_index_def [symmetric] higher_index_def [symmetric] pair_avg_altitude_def [symmetric]
    altitude_change_def [symmetric] conflict_priority_def [symmetric]
  by (simp add: issue_altitude_change)

lemma try_altitude_neither:
  assumes "\<not> MIN_ALTITUDE \<le> pos_altitude (position (acs ! lower_index acs k1 k2))
             - vertical_ft (standard (pair_avg_altitude (acs ! k1) (acs ! k2))) - 1000"
    and "\<not> pos_altitude (position (acs ! higher_index acs k1 k2))
             + vertical_ft (standard (pair_avg_altitude (acs ! k1) (acs ! k2))) + 1000 \<le> MAX_ALTITUDE"
  shows "try_altitude_resolution self acs k1 k2 c t = Inr (False, self, acs)"
  using assms
  unfolding try_altitude_resolution_def Let_def
    lower_index_def [symmetric] higher_index_def [symmetric] pair_avg_altitude_def [symmetric]
  by simp

lemma try_heading_always:
  "try_heading_resolution self acs k1 k2 c t =
     Inr (True,
          logged self
            (heading_change (callsign (acs ! k1)) t
               (py_mod (heading (velocity (acs ! k1)) + 30) 360) (conflict_priority c)),
          acs[k1 := set_heading (acs ! k1) (py_mod (heading (velocity (acs ! k1)) + 30) 360)])"
  unfolding try_heading_resolution_def Let_def
    heading_change_def [symmetric] conflict_priority_def [symmetric]
  by (simp add: issue_heading_change)

lemma find_callsign_Some:
  "find_callsign acs c = Some k \<Longrightarrow> k < length acs \<and> callsign (acs ! k) = c"
  by (induction acs arbitrary: k) (auto split: if_splits)

lemma find_callsign_None:
  "find_callsign acs c = None \<longleftrightarrow> c \<notin> callsign ` set acs"
  by (induction acs) auto

lemma find_callsign_first:
  "find_callsign acs c = Some k \<Longrightarrow> j < k \<Longrightarrow> callsign (acs ! j) \<noteq> c"
proof (induction acs arbitrary: k j)
  case Nil
  then show ?case by simp
next
  case (Cons a acs)
  then show ?case by (cases j) (auto split: if_splits)
qed

lemma scan_recent_takeWhile:
  "scan_recent r c1 c2 now w \<longleftrightarrow>
     (\<exists>i \<in> set (takeWhile (\<lambda>i. now - timestamp i \<le> w) r). i_callsign i = c1 \<or> i_callsign i = c2)"
  by (induction r) (auto simp: not_less)

lemma scan_recent_sorted:
  assumes "sorted_wrt (\<lambda>i j. timestamp j \<le> timestamp i) r"
  shows "scan_recent r c1 c2 now w \<longleftrightarrow>
     (\<exists>i \<in> set r. (i_callsign i = c1 \<or> i_callsign i = c2) \<and> now - timestamp i \<le> w)"
  using assms
proof (induction r)
  case Nil
  then show ?case by simp
next
  case (Cons a r)
  show ?case
  proof (cases "w < now - timestamp a")
    case True
    with Cons.prems have "\<forall>i \<in> set (a # r). w < now - timestamp i" by fastforce
    with True show ?thesis by fastforce
  next
    case False
    with Cons show ?thesis by auto
  qed
qed

lemma sorted_last_20_rev:
  assumes "sorted (map timestamp xs)"
  shows "sorted_wrt (\<lambda>i j. timestamp j \<le> timestamp i) (rev (last_20 xs))"
proof -
  from assms have "sorted (map timestamp (last_20 xs))"
    unfolding last_20_def drop_map [symmetric] by (rule sorted_wrt_drop)
  then have "sorted_wrt (\<lambda>i j. timestamp i \<le> timestamp j) (last_20 xs)"
    by (simp add: sorted_wrt_map)
  then show ?thesis by (simp add: sorted_wrt_rev)
qed

lemma try_altitude_lower':
  "1000 \<le> lower_target acs k1 k2 \<Longrightarrow>
   try_altitude_resolution self acs k1 k2 c t = Inr (True, lower_resolved self acs k1 k2 c t)"
  using try_altitude_lower [of acs k1 k2 self c t]
  by (simp add: lower_target_def required_vertical_def lower_resolved_def MIN_ALTITUDE_def)

lemma try_altitude_higher':
  "lower_target acs k1 k2 < 1000 \<Longrightarrow> higher_target acs k1 k2 \<le> 45000 \<Longrightarrow>
   try_altitude_resolution self acs k1 k2 c t = Inr (True, higher_resolved self acs k1 k2 c t)"
  using try_altitude_higher [of acs k1 k2 self c t]
  by (simp add: lower_target_def higher_target_def required_vertical_def higher_resolved_def
        MIN_ALTITUDE_def MAX_ALTITUDE_def)

lemma try_altitude_neither':
  "lower_target acs k1 k2 < 1000 \<Longrightarrow> 45000 < higher_target acs k1 k2 \<Longrightarrow>
   try_altitude_resolution self acs k1 k2 c t = Inr (False, self, acs)"
  using try_altitude_neither [of acs k1 k2 self c t]
  by (simp add: lower_target_def higher_target_def required_vertical_def
        MIN_ALTITUDE_def MAX_ALTITUDE_def)

lemma try_heading_always':
  "try_heading_resolution self acs k1 k2 c t = Inr (True, heading_resolved self acs k1 c t)"
  by (simp add: try_heading_always heading_resolved_def vectored_heading_def)

lemma resolve_conflict_recent:
  "recently_instructed self (aircraft1 c) (aircraft2 c) t 60 \<Longrightarrow>
   resolve_conflict self c acs t = Inr (self, acs)"
  by (simp add: resolve_conflict_def split: option.split)

lemma resolve_conflict_found:
  assumes "find_callsign acs (aircraft1 c) = Some k1" "find_callsign acs (aircraft2 c) = Some k2"
    and "\<not> recently_instructed self (aircraft1 c) (aircraft2 c) t 60"
  shows "resolve_conflict self c acs t =
     (if 1000 \<le> lower_target acs k1 k2 then Inr (lower_resolved self acs k1 k2 c t)
      else if higher_target acs k1 k2 \<le> 45000 then Inr (higher_resolved self acs k1 k2 c t)
      else Inr (heading_resolved self acs k1 c t))"
proof -
  consider "1000 \<le> lower_target acs k1 k2"
    | "lower_target acs k1 k2 < 1000" "higher_target acs k1 k2 \<le> 45000"
    | "lower_target acs k1 k2 < 1000" "45000 < higher_target acs k1 k2"
    by linarith
  then show ?thesis
  proof cases
    case 1
    with assms show ?thesis
      by (simp add: resolve_conflict_def try_altitude_lower')
  next
    case 2
    with assms show ?thesis
      by (simp add: resolve_conflict_def try_altitude_higher')
  next
    case 3
    with assms show ?thesis
      by (simp add: resolve_conflict_def try_altitude_neither' try_heading_always')
  qed
qed

lemma resolve_conflict_not_found:
  "find_callsign acs (aircraft1 c) = None \<or> find_callsign acs (aircraft2 c) = None \<Longrightarrow>
   resolve_conflict self c acs t = Inr (self, acs)"
  by (auto simp: resolve_conflict_def split: option.split)

lemma extends_refl: "extends_without_speed self (Inr (self, acs))"
  by (simp add: extends_without_speed_def)

lemma extends_logged:
  "instruction_type i \<noteq> SPEED_CHANGE \<Longrightarrow> extends_without_speed self (Inr (logged self i, acs))"
  by (simp add: extends_without_speed_def logged_def)

lemma resolve_conflict_extends:
  "extends_without_speed self (resolve_conflict self c acs t)"
proof (cases "find_callsign acs (aircraft1 c)")
  case None
  then show ?thesis by (simp add: resolve_conflict_not_found extends_refl)
next
  case (Some k1)
  note k1 = this
  show ?thesis
  proof (cases "find_callsign acs (aircraft2 c)")
    case None
    then show ?thesis by (simp add: resolve_conflict_not_found extends_refl)
  next
    case (Some k2)
    show ?thesis
    proof (cases "recently_instructed self (aircraft1 c) (aircraft2 c) t 60")
      case True
      then show ?thesis by (simp add: resolve_conflict_recent extends_refl)
    next
      case False
      show ?thesis
        unfolding resolve_conflict_found [OF k1 Some False]
        by (simp add: lower_resolved_def higher_resolved_def heading_resolved_def
              extends_logged altitude_change_def heading_change_def)
    qed
  qed
qed

lemma resolve_all_extends:
  "extends_without_speed self (resolve_all self cs acs t)"
proof (induction cs arbitrary: self acs)
  case Nil
  then show ?case by (simp add: extends_refl)
next
  case (Cons c cs)
  show ?case
  proof (cases "severity c \<in> set [''high'', ''medium'']")
    case False
    then show ?thesis using Cons.IH [of self acs] by simp
  next
    case True
    from resolve_conflict_extends [of self c acs t]
    obtain s1 acs1 new1 where r: "resolve_conflict self c acs t = Inr (s1, acs1)"
      and i1: "instructions s1 = instructions self @ new1"
      and n1: "list_all (\<lambda>i. instruction_type i \<noteq> SPEED_CHANGE) new1"
      unfolding extends_without_speed_def by blast
    from Cons.IH [of s1 acs1]
    obtain s2 acs2 new2 where r2: "resolve_all s1 cs acs1 t = Inr (s2, acs2)"
      and i2: "instructions s2 = instructions s1 @ new2"
      and n2: "list_all (\<lambda>i. instruction_type i \<noteq> SPEED_CHANGE) new2"
      unfolding extends_without_speed_def by blast
    have "resolve_all self (c # cs) acs t = Inr (s2, acs2)"
      using True r r2 by simp
    moreover have "instructions s2 = instructions self @ (new1 @ new2)"
      using i1 i2 by simp
    moreover have "list_all (\<lambda>i. instruction_type i \<noteq> SPEED_CHANGE) (new1 @ new2)"
      using n1 n2 by simp
    ultimately show ?thesis
      unfolding extends_without_speed_def by blast
  qed
qed

lemma atc_update_extends:
  "extends_without_speed self (atc_update self acs t)"
proof -
  obtain found asp where d: "detect_conflicts (airspace self) acs 300 = (found, asp)"
    by (cases "detect_conflicts (airspace self) acs 300")
  from resolve_all_extends [of "self\<lparr>airspace := asp\<rparr>" found acs t] d
  show ?thesis by (simp add: atc_update_def extends_without_speed_def)
qed

lemma pair_at_facts:
  "pos_altitude (position (pair_at alt1 alt2 ! 0)) = alt1"
  "pos_altitude (position (pair_at alt1 alt2 ! Suc 0)) = alt2"
  "callsign (pair_at alt1 alt2 ! 0) = ''UAL100''"
  "callsign (pair_at alt1 alt2 ! Suc 0) = ''AAL200''"
  "heading (velocity (pair_at alt1 alt2 ! 0)) = 90"
  "find_callsign (pair_at alt1 alt2) ''UAL100'' = Some 0"
  "find_callsign (pair_at alt1 alt2) ''AAL200'' = Some (Suc 0)"
  by (simp_all add: pair_at_def conflict_scenario_ac1_def conflict_scenario_ac2_def mk_Aircraft_def)

section \<open>Claims about the resolution policy\<close>

text \<open>
  C7. Altitude resolution takes the lower and the higher aircraft by current altitude and
  the required vertical separation of the pair's average altitude. If the altitude of the
  lower aircraft less the requirement less 1000 ft is at least 1000 ft, the lower aircraft
  is issued an \<open>ALTITUDE_CHANGE\<close> to that value, which is below its altitude, with
  priority \<open>HIGH\<close> for severity high and \<open>MEDIUM\<close> otherwise, and the resolution
  of the conflict ends there. Otherwise, if the altitude of the higher aircraft plus the
  requirement plus 1000 ft is at most 45000 ft, the higher aircraft is issued that
  value. Otherwise no altitude instruction is issued and heading resolution follows.
\<close>

theorem altitude_resolution_order:
  "pos_altitude (position (acs ! lower_index acs k1 k2))
     \<le> pos_altitude (position (acs ! higher_index acs k1 k2)) \<and>
   lower_target acs k1 k2 < pos_altitude (position (acs ! lower_index acs k1 k2)) \<and>
   (1000 \<le> lower_target acs k1 k2 \<longrightarrow>
      try_altitude_resolution self acs k1 k2 c t = Inr (True, lower_resolved self acs k1 k2 c t)) \<and>
   (lower_target acs k1 k2 < 1000 \<and> higher_target acs k1 k2 \<le> 45000 \<longrightarrow>
      try_altitude_resolution self acs k1 k2 c t = Inr (True, higher_resolved self acs k1 k2 c t)) \<and>
   (lower_target acs k1 k2 < 1000 \<and> 45000 < higher_target acs k1 k2 \<longrightarrow>
      try_altitude_resolution self acs k1 k2 c t = Inr (False, self, acs)) \<and>
   (find_callsign acs (aircraft1 c) = Some k1 \<and> find_callsign acs (aircraft2 c) = Some k2 \<and>
    \<not> recently_instructed self (aircraft1 c) (aircraft2 c) t 60 \<longrightarrow>
      resolve_conflict self c acs t =
        (if 1000 \<le> lower_target acs k1 k2 then Inr (lower_resolved self acs k1 k2 c t)
         else if higher_target acs k1 k2 \<le> 45000 then Inr (higher_resolved self acs k1 k2 c t)
         else Inr (heading_resolved self acs k1 c t))) \<and>
   conflict_priority c = (if severity c = ''high'' then HIGH else MEDIUM) \<and>
   instruction_type (altitude_change cs t alt p) = ALTITUDE_CHANGE \<and>
   i_callsign (altitude_change cs t alt p) = cs \<and>
   priority (altitude_change cs t alt p) = p \<and>
   get_num (parameters (altitude_change cs t alt p)) ''new_altitude'' = Inr alt"
proof (intro conjI impI)
  show "pos_altitude (position (acs ! lower_index acs k1 k2))
     \<le> pos_altitude (position (acs ! higher_index acs k1 k2))"
    by (simp add: lower_index_def higher_index_def)
  show "lower_target acs k1 k2 < pos_altitude (position (acs ! lower_index acs k1 k2))"
    using vertical_ft_standard [of "pair_avg_altitude (acs ! k1) (acs ! k2)"]
    by (auto simp: lower_target_def required_vertical_def)
  show "conflict_priority c = (if severity c = ''high'' then HIGH else MEDIUM)"
    by (simp add: conflict_priority_def)
  show "instruction_type (altitude_change cs t alt p) = ALTITUDE_CHANGE"
    "i_callsign (altitude_change cs t alt p) = cs"
    "priority (altitude_change cs t alt p) = p"
    "get_num (parameters (altitude_change cs t alt p)) ''new_altitude'' = Inr alt"
    by (simp_all add: altitude_change_def get_num_def)
next
  assume "1000 \<le> lower_target acs k1 k2"
  then show "try_altitude_resolution self acs k1 k2 c t =
      Inr (True, lower_resolved self acs k1 k2 c t)"
    by (rule try_altitude_lower')
next
  assume "lower_target acs k1 k2 < 1000 \<and> higher_target acs k1 k2 \<le> 45000"
  then show "try_altitude_resolution self acs k1 k2 c t =
      Inr (True, higher_resolved self acs k1 k2 c t)"
    by (simp add: try_altitude_higher')
next
  assume "lower_target acs k1 k2 < 1000 \<and> 45000 < higher_target acs k1 k2"
  then show "try_altitude_resolution self acs k1 k2 c t = Inr (False, self, acs)"
    by (simp add: try_altitude_neither')
next
  assume "find_callsign acs (aircraft1 c) = Some k1 \<and> find_callsign acs (aircraft2 c) = Some k2 \<and>
    \<not> recently_instructed self (aircraft1 c) (aircraft2 c) t 60"
  then show "resolve_conflict self c acs t =
        (if 1000 \<le> lower_target acs k1 k2 then Inr (lower_resolved self acs k1 k2 c t)
         else if higher_target acs k1 k2 \<le> 45000 then Inr (higher_resolved self acs k1 k2 c t)
         else Inr (heading_resolved self acs k1 c t))"
    by (simp add: resolve_conflict_found)
qed

lemma pair_at_targets:
  "lower_index (pair_at 35000 35000) 0 (Suc 0) = Suc 0"
  "lower_target (pair_at 35000 35000) 0 (Suc 0) = 32000"
  "higher_index (pair_at 2500 2500) 0 (Suc 0) = 0"
  "lower_target (pair_at 2500 2500) 0 (Suc 0) = 500"
  "higher_target (pair_at 2500 2500) 0 (Suc 0) = 4500"
  "lower_target (pair_at 2500 43500) 0 (Suc 0) = 500"
  "higher_target (pair_at 2500 43500) 0 (Suc 0) = 45500"
  by (simp_all add: lower_index_def higher_index_def lower_target_def higher_target_def
        required_vertical_def pair_avg_altitude_def standard_def pair_at_facts)

lemma atc0_not_recent: "\<not> recently_instructed atc0 c1 c2 t w"
  by (simp add: recently_instructed_def atc0_def mk_ATCSystem_def last_20_def)

theorem altitude_resolution_order_witness:
  "try_altitude_resolution atc0 (pair_at 35000 35000) 0 (Suc 0) (head_on_conflict ''high'') 7 =
     Inr (True, logged atc0 (altitude_change ''AAL200'' 7 32000 HIGH),
          (pair_at 35000 35000)[Suc 0 := set_altitude (pair_at 35000 35000 ! Suc 0) 32000]) \<and>
   try_altitude_resolution atc0 (pair_at 2500 2500) 0 (Suc 0) (head_on_conflict ''medium'') 7 =
     Inr (True, logged atc0 (altitude_change ''UAL100'' 7 4500 MEDIUM),
          (pair_at 2500 2500)[0 := set_altitude (pair_at 2500 2500 ! 0) 4500]) \<and>
   try_altitude_resolution atc0 (pair_at 2500 43500) 0 (Suc 0) (head_on_conflict ''high'') 7 =
     Inr (False, atc0, pair_at 2500 43500) \<and>
   resolve_conflict atc0 (head_on_conflict ''high'') (pair_at 35000 35000) 7 =
     Inr (logged atc0 (altitude_change ''AAL200'' 7 32000 HIGH),
          (pair_at 35000 35000)[Suc 0 := set_altitude (pair_at 35000 35000 ! Suc 0) 32000])"
proof -
  note a = altitude_resolution_order [of "pair_at 35000 35000" 0 "Suc 0" atc0
      "head_on_conflict ''high''" 7 "''AAL200''" 32000 HIGH]
  note b = altitude_resolution_order [of "pair_at 2500 2500" 0 "Suc 0" atc0
      "head_on_conflict ''medium''" 7 "''UAL100''" 4500 MEDIUM]
  note c = altitude_resolution_order [of "pair_at 2500 43500" 0 "Suc 0" atc0
      "head_on_conflict ''high''" 7 "''UAL100''" 4500 HIGH]
  have f: "find_callsign (pair_at 35000 35000) (aircraft1 (head_on_conflict ''high'')) = Some 0"
    "find_callsign (pair_at 35000 35000) (aircraft2 (head_on_conflict ''high'')) = Some (Suc 0)"
    by (simp_all add: head_on_conflict_def pair_at_facts)
  have p: "conflict_priority (head_on_conflict ''high'') = HIGH"
    "conflict_priority (head_on_conflict ''medium'') = MEDIUM"
    by (simp_all add: conflict_priority_def head_on_conflict_def)
  have 1: "try_altitude_resolution atc0 (pair_at 35000 35000) 0 (Suc 0) (head_on_conflict ''high'') 7 =
     Inr (True, logged atc0 (altitude_change ''AAL200'' 7 32000 HIGH),
          (pair_at 35000 35000)[Suc 0 := set_altitude (pair_at 35000 35000 ! Suc 0) 32000])"
    using a by (simp add: pair_at_targets lower_resolved_def pair_at_facts p)
  have 2: "try_altitude_resolution atc0 (pair_at 2500 2500) 0 (Suc 0) (head_on_conflict ''medium'') 7 =
     Inr (True, logged atc0 (altitude_change ''UAL100'' 7 4500 MEDIUM),
          (pair_at 2500 2500)[0 := set_altitude (pair_at 2500 2500 ! 0) 4500])"
    using b by (simp add: pair_at_targets higher_resolved_def pair_at_facts p)
  have 3: "try_altitude_resolution atc0 (pair_at 2500 43500) 0 (Suc 0) (head_on_conflict ''high'') 7 =
     Inr (False, atc0, pair_at 2500 43500)"
    using c by (simp add: pair_at_targets)
  have 4: "resolve_conflict atc0 (head_on_conflict ''high'') (pair_at 35000 35000) 7 =
     Inr (logged atc0 (altitude_change ''AAL200'' 7 32000 HIGH),
          (pair_at 35000 35000)[Suc 0 := set_altitude (pair_at 35000 35000 ! Suc 0) 32000])"
    using a f atc0_not_recent by (simp add: pair_at_targets lower_resolved_def pair_at_facts p)
  from 1 2 3 4 show ?thesis by simp
qed

lemma last_20_suffix: "\<exists>ys. xs = ys @ last_20 xs"
  unfolding last_20_def by (metis append_take_drop_id)

text \<open>
  C8. \<open>_recently_instructed\<close> scans the last 20 instructions of the log from the newest
  and stops at the first one older than the window: it holds exactly when one of the
  two callsigns is among the instructions before that stop. On a log with ascending
  timestamps that is: one of the two callsigns is in one of the last 20 instructions
  no older than the window. When it holds for the window of 60 s, resolving the conflict
  issues no instruction and changes nothing.
\<close>

theorem cooldown_skips_resolution:
  "(recently_instructed self c1 c2 now w \<longleftrightarrow>
      (\<exists>i \<in> set (takeWhile (\<lambda>i. now - timestamp i \<le> w) (rev (last_20 (instructions self)))).
         i_callsign i = c1 \<or> i_callsign i = c2)) \<and>
   (sorted (map timestamp (instructions self)) \<longrightarrow>
      (recently_instructed self c1 c2 now w \<longleftrightarrow>
         (\<exists>i \<in> set (last_20 (instructions self)).
            (i_callsign i = c1 \<or> i_callsign i = c2) \<and> now - timestamp i \<le> w))) \<and>
   length (last_20 xs) = min 20 (length xs) \<and>
   (\<exists>ys. xs = ys @ last_20 xs) \<and>
   (recently_instructed self (aircraft1 c) (aircraft2 c) t 60 \<longrightarrow>
      resolve_conflict self c acs t = Inr (self, acs)) \<and>
   (recently_instructed self (aircraft1 c) (aircraft2 c) t 60 \<and>
    (severity c = ''high'' \<or> severity c = ''medium'') \<longrightarrow>
      resolve_all self [c] acs t = Inr (self, acs))"
proof (intro conjI impI)
  show "recently_instructed self c1 c2 now w \<longleftrightarrow>
      (\<exists>i \<in> set (takeWhile (\<lambda>i. now - timestamp i \<le> w) (rev (last_20 (instructions self)))).
         i_callsign i = c1 \<or> i_callsign i = c2)"
    unfolding recently_instructed_def by (rule scan_recent_takeWhile)
  show "length (last_20 xs) = min 20 (length xs)"
    by (simp add: last_20_def)
  show "\<exists>ys. xs = ys @ last_20 xs"
    by (rule last_20_suffix)
next
  assume "sorted (map timestamp (instructions self))"
  then have "sorted_wrt (\<lambda>i j. timestamp j \<le> timestamp i) (rev (last_20 (instructions self)))"
    by (rule sorted_last_20_rev)
  then show "recently_instructed self c1 c2 now w \<longleftrightarrow>
         (\<exists>i \<in> set (last_20 (instructions self)).
            (i_callsign i = c1 \<or> i_callsign i = c2) \<and> now - timestamp i \<le> w)"
    unfolding recently_instructed_def by (simp add: scan_recent_sorted)
next
  assume "recently_instructed self (aircraft1 c) (aircraft2 c) t 60"
  then show "resolve_conflict self c acs t = Inr (self, acs)"
    by (rule resolve_conflict_recent)
next
  assume "recently_instructed self (aircraft1 c) (aircraft2 c) t 60 \<and>
    (severity c = ''high'' \<or> severity c = ''medium'')"
  then show "resolve_all self [c] acs t = Inr (self, acs)"
    by (auto simp: resolve_conflict_recent)
qed

lemma atc1_log: "instructions atc1 = [heading_change ''UAL100'' 10 120 HIGH]"
  by (simp add: atc1_def atc0_def logged_def mk_ATCSystem_def)

theorem cooldown_skips_resolution_witness:
  "recently_instructed atc1 ''UAL100'' ''AAL200'' 50 60 \<and>
   \<not> recently_instructed atc1 ''UAL100'' ''AAL200'' 100 60 \<and>
   resolve_conflict atc1 (head_on_conflict ''high'') conflict_scenario 50 =
     Inr (atc1, conflict_scenario) \<and>
   resolve_all atc1 [head_on_conflict ''high''] conflict_scenario 50 =
     Inr (atc1, conflict_scenario)"
proof -
  note a = cooldown_skips_resolution [of atc1 "''UAL100''" "''AAL200''" 50 60 "instructions atc1"
      "head_on_conflict ''high''" 50 conflict_scenario]
  note b = cooldown_skips_resolution [of atc1 "''UAL100''" "''AAL200''" 100 60 "instructions atc1"
      "head_on_conflict ''high''" 100 conflict_scenario]
  have s: "sorted (map timestamp (instructions atc1))"
    by (simp add: atc1_log)
  have l: "last_20 (instructions atc1) = [heading_change ''UAL100'' 10 120 HIGH]"
    by (simp add: atc1_log last_20_def)
  have r: "recently_instructed atc1 ''UAL100'' ''AAL200'' 50 60"
    using a s by (simp add: l heading_change_def)
  have n: "\<not> recently_instructed atc1 ''UAL100'' ''AAL200'' 100 60"
    using b s by (simp add: l heading_change_def)
  have c: "aircraft1 (head_on_conflict ''high'') = ''UAL100''"
    "aircraft2 (head_on_conflict ''high'') = ''AAL200''"
    "severity (head_on_conflict ''high'') = ''high''"
    by (simp_all add: head_on_conflict_def)
  from a r c have "resolve_conflict atc1 (head_on_conflict ''high'') conflict_scenario 50 =
     Inr (atc1, conflict_scenario)" by simp
  moreover from a r c have "resolve_all atc1 [head_on_conflict ''high''] conflict_scenario 50 =
     Inr (atc1, conflict_scenario)" by simp
  ultimately show ?thesis using r n by simp
qed

text \<open>
  C9. Heading resolution always succeeds: it issues a \<open>HEADING_CHANGE\<close> to the first
  aircraft of the conflict, to its heading plus 30 degrees modulo 360. When altitude
  resolution fails, resolving the conflict is that instruction. So speed resolution is
  never reached: resolving a conflict, or a whole list of them, or a whole update of
  the system, returns without an exception, and adds no \<open>SPEED_CHANGE\<close> to the log.
\<close>

theorem heading_resolution_makes_speed_unreachable:
  "try_heading_resolution self acs k1 k2 c t = Inr (True, heading_resolved self acs k1 c t) \<and>
   heading_resolved self acs k1 c t =
     (logged self (heading_change (callsign (acs ! k1)) t
                     (py_mod (heading (velocity (acs ! k1)) + 30) 360) (conflict_priority c)),
      acs[k1 := set_heading (acs ! k1) (py_mod (heading (velocity (acs ! k1)) + 30) 360)]) \<and>
   instruction_type (heading_change cs t hdg p) = HEADING_CHANGE \<and>
   i_callsign (heading_change cs t hdg p) = cs \<and>
   get_num (parameters (heading_change cs t hdg p)) ''new_heading'' = Inr hdg \<and>
   (find_callsign acs (aircraft1 c) = Some k1 \<and> find_callsign acs (aircraft2 c) = Some k2 \<and>
    \<not> recently_instructed self (aircraft1 c) (aircraft2 c) t 60 \<and>
    try_altitude_resolution self acs k1 k2 c t = Inr (False, self1, acs1) \<longrightarrow>
      resolve_conflict self c acs t = Inr (heading_resolved self acs k1 c t) \<and>
      callsign (acs ! k1) = aircraft1 c) \<and>
   extends_without_speed self (resolve_conflict self c acs t) \<and>
   extends_without_speed self (resolve_all self found acs t) \<and>
   extends_without_speed self (atc_update self acs t)"
proof (intro conjI impI)
  show "try_heading_resolution self acs k1 k2 c t = Inr (True, heading_resolved self acs k1 c t)"
    by (rule try_heading_always')
  show "heading_resolved self acs k1 c t =
     (logged self (heading_change (callsign (acs ! k1)) t
                     (py_mod (heading (velocity (acs ! k1)) + 30) 360) (conflict_priority c)),
      acs[k1 := set_heading (acs ! k1) (py_mod (heading (velocity (acs ! k1)) + 30) 360)])"
    by (simp add: heading_resolved_def vectored_heading_def)
  show "instruction_type (heading_change cs t hdg p) = HEADING_CHANGE"
    "i_callsign (heading_change cs t hdg p) = cs"
    "get_num (parameters (heading_change cs t hdg p)) ''new_heading'' = Inr hdg"
    by (simp_all add: heading_change_def get_num_def)
  show "extends_without_speed self (resolve_conflict self c acs t)"
    by (rule resolve_conflict_extends)
  show "extends_without_speed self (resolve_all self found acs t)"
    by (rule resolve_all_extends)
  show "extends_without_speed self (atc_update self acs t)"
    by (rule atc_update_extends)
next
  assume h: "find_callsign acs (aircraft1 c) = Some k1 \<and> find_callsign acs (aircraft2 c) = Some k2 \<and>
    \<not> recently_instructed self (aircraft1 c) (aircraft2 c) t 60 \<and>
    try_altitude_resolution self acs k1 k2 c t = Inr (False, self1, acs1)"
  then have f: "try_altitude_resolution self acs k1 k2 c t = Inr (False, self1, acs1)" by simp
  have lo: "\<not> 1000 \<le> lower_target acs k1 k2"
    using f try_altitude_lower' [of acs k1 k2 self c t] by auto
  then have hi: "\<not> higher_target acs k1 k2 \<le> 45000"
    using f try_altitude_higher' [of acs k1 k2 self c t] by auto
  from h lo hi show "resolve_conflict self c acs t = Inr (heading_resolved self acs k1 c t)"
    by (simp add: resolve_conflict_found)
  from h show "callsign (acs ! k1) = aircraft1 c"
    by (simp add: find_callsign_Some)
qed

theorem heading_resolution_makes_speed_unreachable_witness:
  "resolve_conflict atc0 (head_on_conflict ''high'') (pair_at 2500 43500) 7 =
     Inr (logged atc0 (heading_change ''UAL100'' 7 120 HIGH),
          (pair_at 2500 43500)[0 := set_heading (pair_at 2500 43500 ! 0) 120]) \<and>
   extends_without_speed atc0 (atc_update atc0 conflict_scenario 7)"
proof -
  note a = heading_resolution_makes_speed_unreachable [of atc0 "pair_at 2500 43500" 0 "Suc 0"
      "head_on_conflict ''high''" 7 "''UAL100''" 120 HIGH atc0 "pair_at 2500 43500"
      "[]" ]
  note b = heading_resolution_makes_speed_unreachable [of atc0 conflict_scenario 0 "Suc 0"
      "head_on_conflict ''high''" 7 "''UAL100''" 120 HIGH atc0 conflict_scenario "[]"]
  have f: "find_callsign (pair_at 2500 43500) (aircraft1 (head_on_conflict ''high'')) = Some 0"
    "find_callsign (pair_at 2500 43500) (aircraft2 (head_on_conflict ''high'')) = Some (Suc 0)"
    by (simp_all add: head_on_conflict_def pair_at_facts)
  have n: "try_altitude_resolution atc0 (pair_at 2500 43500) 0 (Suc 0) (head_on_conflict ''high'') 7 =
     Inr (False, atc0, pair_at 2500 43500)"
    by (simp add: try_altitude_neither' pair_at_targets)
  have p: "conflict_priority (head_on_conflict ''high'') = HIGH"
    by (simp add: conflict_priority_def head_on_conflict_def)
  have v: "py_mod 120 360 = 120"
    by (simp add: py_mod_def)
  from a f n atc0_not_recent
  have "resolve_conflict atc0 (head_on_conflict ''high'') (pair_at 2500 43500) 7 =
     Inr (heading_resolved atc0 (pair_at 2500 43500) 0 (head_on_conflict ''high'') 7)"
    by simp
  moreover from a
  have "heading_resolved atc0 (pair_at 2500 43500) 0 (head_on_conflict ''high'') 7 =
     (logged atc0 (heading_change ''UAL100'' 7 120 HIGH),
          (pair_at 2500 43500)[0 := set_heading (pair_at 2500 43500 ! 0) 120])"
    by (simp add: pair_at_facts p v)
  moreover from b have "extends_without_speed atc0 (atc_update atc0 conflict_scenario 7)"
    by simp
  ultimately show ?thesis by simp
qed

section \<open>The violation scan\<close>

lemma for_pairs_foldl:
  "for_pairs n body s = foldl (\<lambda>s p. body s (fst p) (snd p)) s (index_pairs n)"
  by (simp add: for_pairs_index_pairs split_def)

lemma violation_step_eq:
  "violation_step acs t (cur, s) (fst p) (snd p) =
     (if violating acs p then
        (insert (key_of acs p) cur,
         case active_violations s (key_of acs p) of
           None \<Rightarrow>
             s\<lparr>active_violations := (active_violations s)(key_of acs p \<mapsto> length (violations s)),
               violations := violations s @ [observed_violation acs t (fst p) (snd p)]\<rparr>
         | Some idx \<Rightarrow>
             s\<lparr>violations := (violations s)
                  [idx := (violations s ! idx)\<lparr>v_duration := v_duration (violations s ! idx) + 1\<rparr>]\<rparr>)
      else (cur, s))"
  by (simp add: violation_step_def Let_def check_separation_def set_min_separation_achieved_def
        observed_violation_def key_of_def violating_def split: option.split)

lemma scan_Nil [simp]: "scan_violations acs t st [] = st"
  by (simp add: scan_violations_def)

lemma scan_Cons:
  "scan_violations acs t (cur, s) (p # ps) =
     scan_violations acs t (violation_step acs t (cur, s) (fst p) (snd p)) ps"
  by (simp add: scan_violations_def)

lemma scan_append:
  "scan_violations acs t st (ps @ qs) = scan_violations acs t (scan_violations acs t st ps) qs"
  by (simp add: scan_violations_def)

lemma violating_keys_simps [simp]:
  "violating_keys acs [] = {}"
  "violating_keys acs (p # ps) =
     (if violating acs p then insert (key_of acs p) (violating_keys acs ps)
      else violating_keys acs ps)"
  by (auto simp: violating_keys_def)

lemma scan_current:
  "fst (scan_violations acs t (cur, s) ps) = cur \<union> violating_keys acs ps"
proof (induction ps arbitrary: cur s)
  case Nil
  then show ?case by simp
next
  case (Cons p ps)
  show ?case
    by (simp add: scan_Cons violation_step_eq Cons.IH)
qed

lemma scan_dom:
  "dom (active_violations (snd (scan_violations acs t (cur, s) ps))) =
     dom (active_violations s) \<union> violating_keys acs ps"
proof (induction ps arbitrary: cur s)
  case Nil
  then show ?case by simp
next
  case (Cons p ps)
  show ?case
    by (auto simp: scan_Cons violation_step_eq Cons.IH split: option.splits)
qed

lemma same_observation_refl [simp]: "same_observation v v"
  by (simp add: same_observation_def)

lemma same_observation_trans:
  "same_observation a b \<Longrightarrow> same_observation b c \<Longrightarrow> same_observation a c"
  by (auto simp: same_observation_def)

lemma same_observation_bump:
  "k < length xs \<Longrightarrow>
   same_observation (xs ! k) (xs[i := (xs ! i)\<lparr>v_duration := v_duration (xs ! i) + 1\<rparr>] ! k)"
  by (cases "i = k") (simp_all add: same_observation_def)

lemma step_frame:
  assumes "violation_step acs t (cur, s) (fst p) (snd p) = (cur', s')"
  shows "length (violations s) \<le> length (violations s')"
    and "k < length (violations s) \<Longrightarrow> same_observation (violations s ! k) (violations s' ! k)"
    and "near_misses s' = near_misses s"
proof -
  note e = assms [unfolded violation_step_eq]
  show "length (violations s) \<le> length (violations s')"
    using e by (auto split: if_splits option.splits)
  show "near_misses s' = near_misses s"
    using e by (auto split: if_splits option.splits)
  show "same_observation (violations s ! k) (violations s' ! k)" if "k < length (violations s)"
    using e that
    by (auto simp: nth_append same_observation_bump split: if_splits option.splits)
qed

lemma scan_frame:
  assumes "scan_violations acs t (cur, s) ps = (cur', s')"
  shows "length (violations s) \<le> length (violations s') \<and>
         (\<forall>k < length (violations s). same_observation (violations s ! k) (violations s' ! k)) \<and>
         near_misses s' = near_misses s"
  using assms
proof (induction ps arbitrary: cur s)
  case Nil
  then show ?case by simp
next
  case (Cons p ps)
  obtain c1 s1 where st: "violation_step acs t (cur, s) (fst p) (snd p) = (c1, s1)"
    by (cases "violation_step acs t (cur, s) (fst p) (snd p)")
  with Cons.prems have r: "scan_violations acs t (c1, s1) ps = (cur', s')"
    by (simp add: scan_Cons)
  note ih = Cons.IH [OF r]
  note f = step_frame [OF st]
  show ?case
  proof (intro conjI allI impI)
    show "length (violations s) \<le> length (violations s')"
      using ih f(1) by linarith
    show "near_misses s' = near_misses s"
      using ih f(3) by simp
  next
    fix k assume k: "k < length (violations s)"
    then have "k < length (violations s1)" using f(1) by linarith
    with ih have "same_observation (violations s1 ! k) (violations s' ! k)" by blast
    with f(2) [OF k] show "same_observation (violations s ! k) (violations s' ! k)"
      by (rule same_observation_trans)
  qed
qed

lemma step_wf:
  assumes "wf_active s" "violation_step acs t (cur, s) (fst p) (snd p) = (cur', s')"
  shows "wf_active s'"
proof (cases "violating acs p")
  case False
  with assms show ?thesis by (simp add: violation_step_eq)
next
  case True
  note v = this
  show ?thesis
  proof (cases "active_violations s (key_of acs p)")
    case (Some idx)
    with assms v have "active_violations s' = active_violations s"
      "length (violations s') = length (violations s)"
      by (auto simp: violation_step_eq)
    with assms(1) show ?thesis by (simp add: wf_active_def)
  next
    case None
    with assms v have a: "active_violations s' =
        (active_violations s)(key_of acs p \<mapsto> length (violations s))"
      and l: "length (violations s') = Suc (length (violations s))"
      by (auto simp: violation_step_eq)
    from assms(1) have b: "\<And>k idx. active_violations s k = Some idx \<Longrightarrow> idx < length (violations s)"
      and i: "inj_on (active_violations s) (dom (active_violations s))"
      by (auto simp: wf_active_def)
    have 1: "\<forall>k idx. active_violations s' k = Some idx \<longrightarrow> idx < length (violations s')"
      unfolding a l using b by (auto simp: less_Suc_eq)
    have 2: "inj_on (active_violations s') (dom (active_violations s'))"
    proof (rule inj_onI)
      fix x y
      assume x: "x \<in> dom (active_violations s')" and y: "y \<in> dom (active_violations s')"
        and e: "active_violations s' x = active_violations s' y"
      show "x = y"
      proof (cases "x = key_of acs p")
        case True
        show ?thesis
        proof (rule ccontr)
          assume n: "x \<noteq> y"
          with True e a have "active_violations s y = Some (length (violations s))" by simp
          from b [OF this] show False by simp
        qed
      next
        case False
        note nx = this
        show ?thesis
        proof (cases "y = key_of acs p")
          case True
          with nx e a have "active_violations s x = Some (length (violations s))" by simp
          from b [OF this] show ?thesis by simp
        next
          case False
          with nx x y e a have "x \<in> dom (active_violations s)" "y \<in> dom (active_violations s)"
            "active_violations s x = active_violations s y" by auto
          with i show ?thesis by (auto dest: inj_onD)
        qed
      qed
    qed
    from 1 2 show ?thesis by (simp add: wf_active_def)
  qed
qed

lemma step_untouched:
  assumes "wf_active s" "violation_step acs t (cur, s) (fst p) (snd p) = (cur', s')"
    and "violating acs p \<Longrightarrow> key_of acs p \<noteq> k"
  shows "active_violations s' k = active_violations s k"
    and "active_violations s k = Some idx \<Longrightarrow> violations s' ! idx = violations s ! idx"
proof -
  from assms(1) have b: "\<And>k idx. active_violations s k = Some idx \<Longrightarrow> idx < length (violations s)"
    and i: "inj_on (active_violations s) (dom (active_violations s))"
    by (auto simp: wf_active_def)
  show "active_violations s' k = active_violations s k"
    using assms(2,3) by (auto simp: violation_step_eq split: if_splits option.splits)
  show "violations s' ! idx = violations s ! idx" if k: "active_violations s k = Some idx"
  proof (cases "violating acs p")
    case False
    with assms(2) show ?thesis by (simp add: violation_step_eq)
  next
    case True
    then have n: "key_of acs p \<noteq> k" by (rule assms(3))
    show ?thesis
    proof (cases "active_violations s (key_of acs p)")
      case None
      with assms(2) True have "violations s' =
          violations s @ [observed_violation acs t (fst p) (snd p)]"
        by (auto simp: violation_step_eq)
      with b [OF k] show ?thesis by (simp add: nth_append)
    next
      case (Some idx')
      have "idx' \<noteq> idx"
      proof
        assume "idx' = idx"
        with Some k have "active_violations s (key_of acs p) = active_violations s k" by simp
        moreover from Some k have "key_of acs p \<in> dom (active_violations s)"
          "k \<in> dom (active_violations s)" by auto
        ultimately have "key_of acs p = k" using i by (auto dest: inj_onD)
        with n show False by simp
      qed
      moreover from assms(2) True Some have "violations s' =
          (violations s)[idx' := (violations s ! idx')
             \<lparr>v_duration := v_duration (violations s ! idx') + 1\<rparr>]"
        by (auto simp: violation_step_eq)
      ultimately show ?thesis by simp
    qed
  qed
qed

lemma scan_untouched:
  assumes "wf_active s" "scan_violations acs t (cur, s) ps = (cur', s')"
    and "\<And>p. p \<in> set ps \<Longrightarrow> violating acs p \<Longrightarrow> key_of acs p \<noteq> k"
  shows "wf_active s' \<and> active_violations s' k = active_violations s k \<and>
         (\<forall>idx. active_violations s k = Some idx \<longrightarrow> violations s' ! idx = violations s ! idx)"
  using assms
proof (induction ps arbitrary: cur s)
  case Nil
  then show ?case by simp
next
  case (Cons p ps)
  obtain c1 s1 where st: "violation_step acs t (cur, s) (fst p) (snd p) = (c1, s1)"
    by (cases "violation_step acs t (cur, s) (fst p) (snd p)")
  with Cons.prems have r: "scan_violations acs t (c1, s1) ps = (cur', s')"
    by (simp add: scan_Cons)
  have w1: "wf_active s1" using Cons.prems(1) st by (rule step_wf)
  have nk: "violating acs p \<Longrightarrow> key_of acs p \<noteq> k"
    using Cons.prems(3) by simp
  have u: "active_violations s1 k = active_violations s k"
    "\<And>idx. active_violations s k = Some idx \<Longrightarrow> violations s1 ! idx = violations s ! idx"
    using step_untouched [OF Cons.prems(1) st nk] by simp_all
  have ih: "wf_active s' \<and> active_violations s' k = active_violations s1 k \<and>
         (\<forall>idx. active_violations s1 k = Some idx \<longrightarrow> violations s' ! idx = violations s1 ! idx)"
    using Cons.IH [OF w1 r] Cons.prems(3) by simp
  with u show ?case by simp
qed

lemma scan_wf:
  assumes "wf_active s" "scan_violations acs t (cur, s) ps = (cur', s')"
  shows "wf_active s'"
  using assms
proof (induction ps arbitrary: cur s)
  case Nil
  then show ?case by simp
next
  case (Cons p ps)
  obtain c1 s1 where st: "violation_step acs t (cur, s) (fst p) (snd p) = (c1, s1)"
    by (cases "violation_step acs t (cur, s) (fst p) (snd p)")
  with Cons.prems have r: "scan_violations acs t (c1, s1) ps = (cur', s')"
    by (simp add: scan_Cons)
  from Cons.IH [OF step_wf [OF Cons.prems(1) st] r] show ?case .
qed

lemma pair_key_eq:
  "pair_key a b = pair_key c d \<Longrightarrow> (a = c \<and> b = d) \<or> (a = d \<and> b = c)"
  by (auto simp: pair_key_def split: if_splits)

lemma key_of_inj:
  assumes d: "distinct (map callsign acs)"
    and p: "p \<in> set (index_pairs (length acs))" and q: "q \<in> set (index_pairs (length acs))"
    and e: "key_of acs p = key_of acs q"
  shows "p = q"
proof -
  obtain i j where pp: "p = (i, j)" by (cases p)
  obtain i' j' where qq: "q = (i', j')" by (cases q)
  from p pp have 1: "i < j" "j < length acs" by (simp_all add: mem_index_pairs)
  from q qq have 2: "i' < j'" "j' < length acs" by (simp_all add: mem_index_pairs)
  have n: "callsign (acs ! a) = callsign (acs ! b) \<longleftrightarrow> a = b"
    if "a < length acs" "b < length acs" for a b
    using d that nth_eq_iff_index_eq [of "map callsign acs" a b] by simp
  from e pp qq have "(callsign (acs ! i) = callsign (acs ! i') \<and> callsign (acs ! j) = callsign (acs ! j')) \<or>
      (callsign (acs ! i) = callsign (acs ! j') \<and> callsign (acs ! j) = callsign (acs ! i'))"
    by (auto simp: key_of_def dest: pair_key_eq)
  then have "(i = i' \<and> j = j') \<or> (i = j' \<and> j = i')"
    using 1 2 n by auto
  with 1 2 pp qq show ?thesis by auto
qed

lemma step_hit:
  assumes v: "violating acs p" and st: "violation_step acs t (cur, s) (fst p) (snd p) = (cur', s')"
    and w: "wf_active s"
  shows "(\<forall>idx. active_violations s (key_of acs p) = Some idx \<longrightarrow>
            active_violations s' (key_of acs p) = Some idx \<and>
            violations s' ! idx =
              (violations s ! idx)\<lparr>v_duration := v_duration (violations s ! idx) + 1\<rparr>) \<and>
         (active_violations s (key_of acs p) = None \<longrightarrow>
            active_violations s' (key_of acs p) = Some (length (violations s)) \<and>
            violations s' ! length (violations s) = observed_violation acs t (fst p) (snd p))"
proof (cases "active_violations s (key_of acs p)")
  case None
  with v st show ?thesis by (auto simp: violation_step_eq)
next
  case (Some idx)
  with w have "idx < length (violations s)" unfolding wf_active_def by blast
  with Some v st show ?thesis by (auto simp: violation_step_eq)
qed

lemma scan_pair:
  assumes d: "distinct (map callsign acs)" and w: "wf_active s"
    and p: "p \<in> set (index_pairs (length acs))" and v: "violating acs p"
    and sc: "scan_violations acs t (cur, s) (index_pairs (length acs)) = (cur', s')"
  shows "(\<forall>idx. active_violations s (key_of acs p) = Some idx \<longrightarrow>
            active_violations s' (key_of acs p) = Some idx \<and>
            violations s' ! idx =
              (violations s ! idx)\<lparr>v_duration := v_duration (violations s ! idx) + 1\<rparr>) \<and>
         (active_violations s (key_of acs p) = None \<longrightarrow>
            (\<exists>idx. length (violations s) \<le> idx \<and>
               active_violations s' (key_of acs p) = Some idx \<and>
               violations s' ! idx = observed_violation acs t (fst p) (snd p)))"
proof -
  from p obtain pre post where sp: "index_pairs (length acs) = pre @ p # post"
    by (auto dest: split_list)
  have dp: "distinct (pre @ p # post)" using distinct_index_pairs [of "length acs"] sp by simp
  have other: "key_of acs q \<noteq> key_of acs p" if "q \<in> set pre \<or> q \<in> set post" for q
  proof
    assume e: "key_of acs q = key_of acs p"
    from that sp have "q \<in> set (index_pairs (length acs))" by auto
    from key_of_inj [OF d this p e] have "q = p" .
    with that dp show False by auto
  qed
  obtain c1 s1 where r1: "scan_violations acs t (cur, s) pre = (c1, s1)"
    by (cases "scan_violations acs t (cur, s) pre")
  obtain c2 s2 where r2: "violation_step acs t (c1, s1) (fst p) (snd p) = (c2, s2)"
    by (cases "violation_step acs t (c1, s1) (fst p) (snd p)")
  have r3: "scan_violations acs t (c2, s2) post = (cur', s')"
    using sc r1 r2 by (simp add: sp scan_append scan_Cons)
  have u1: "wf_active s1" "active_violations s1 (key_of acs p) = active_violations s (key_of acs p)"
    "\<And>idx. active_violations s (key_of acs p) = Some idx \<Longrightarrow> violations s1 ! idx = violations s ! idx"
    using scan_untouched [OF w r1, of "key_of acs p"] other by auto
  have l1: "length (violations s) \<le> length (violations s1)"
    using scan_frame [OF r1] by simp
  note h = step_hit [OF v r2 u1(1)]
  have w2: "wf_active s2" using u1(1) r2 by (rule step_wf)
  have u3: "active_violations s' (key_of acs p) = active_violations s2 (key_of acs p)"
    "\<And>idx. active_violations s2 (key_of acs p) = Some idx \<Longrightarrow> violations s' ! idx = violations s2 ! idx"
    using scan_untouched [OF w2 r3, of "key_of acs p"] other by auto
  show ?thesis
  proof (intro conjI allI impI)
    fix idx assume a: "active_violations s (key_of acs p) = Some idx"
    then have a1: "active_violations s1 (key_of acs p) = Some idx" using u1(2) by simp
    with h have a2: "active_violations s2 (key_of acs p) = Some idx"
      and v2: "violations s2 ! idx =
              (violations s1 ! idx)\<lparr>v_duration := v_duration (violations s1 ! idx) + 1\<rparr>"
      by simp_all
    show "active_violations s' (key_of acs p) = Some idx" using u3(1) a2 by simp
    show "violations s' ! idx =
              (violations s ! idx)\<lparr>v_duration := v_duration (violations s ! idx) + 1\<rparr>"
      using u3(2) [OF a2] v2 u1(3) [OF a] by simp
  next
    assume a: "active_violations s (key_of acs p) = None"
    then have a1: "active_violations s1 (key_of acs p) = None" using u1(2) by simp
    with h have a2: "active_violations s2 (key_of acs p) = Some (length (violations s1))"
      and v2: "violations s2 ! length (violations s1) = observed_violation acs t (fst p) (snd p)"
      by simp_all
    have "length (violations s) \<le> length (violations s1) \<and>
        active_violations s' (key_of acs p) = Some (length (violations s1)) \<and>
        violations s' ! length (violations s1) = observed_violation acs t (fst p) (snd p)"
      using l1 u3(1) a2 u3(2) [OF a2] v2 by simp
    then show "\<exists>idx. length (violations s) \<le> idx \<and>
               active_violations s' (key_of acs p) = Some idx \<and>
               violations s' ! idx = observed_violation acs t (fst p) (snd p)" by blast
  qed
qed

lemma check_violations_scan:
  assumes "scan_violations acs t ({}, s) (index_pairs (length acs)) = (cur', s')"
  shows "check_violations s acs t =
     s'\<lparr>active_violations := active_violations s' |` violating_keys acs (index_pairs (length acs))\<rparr>"
proof -
  have "cur' = violating_keys acs (index_pairs (length acs))"
    using scan_current [of acs t "{}" s "index_pairs (length acs)"] assms by simp
  with assms show ?thesis
    by (simp add: check_violations_def for_pairs_foldl scan_violations_def)
qed

lemma wf_restrict:
  assumes "wf_active s"
  shows "wf_active (s\<lparr>active_violations := active_violations s |` A\<rparr>)"
proof -
  from assms have b: "\<And>k idx. active_violations s k = Some idx \<Longrightarrow> idx < length (violations s)"
    and i: "inj_on (active_violations s) (dom (active_violations s))"
    by (auto simp: wf_active_def)
  have "inj_on (active_violations s |` A) (dom (active_violations s |` A))"
  proof (rule inj_onI)
    fix x y assume "x \<in> dom (active_violations s |` A)" "y \<in> dom (active_violations s |` A)"
      "(active_violations s |` A) x = (active_violations s |` A) y"
    then have "x \<in> dom (active_violations s)" "y \<in> dom (active_violations s)"
      "active_violations s x = active_violations s y"
      by (auto simp: restrict_map_def split: if_splits)
    with i show "x = y" by (auto dest: inj_onD)
  qed
  moreover have "\<forall>k idx. (active_violations s |` A) k = Some idx \<longrightarrow> idx < length (violations s)"
    using b by (auto simp: restrict_map_def split: if_splits)
  ultimately show ?thesis by (simp add: wf_active_def)
qed

lemma check_violations_wf:
  assumes "wf_active s"
  shows "wf_active (check_violations s acs t)"
proof -
  obtain cur' s' where r: "scan_violations acs t ({}, s) (index_pairs (length acs)) = (cur', s')"
    by (cases "scan_violations acs t ({}, s) (index_pairs (length acs))")
  from scan_wf [OF assms r] have "wf_active s'" .
  then show ?thesis unfolding check_violations_scan [OF r] by (rule wf_restrict)
qed

lemma check_violations_frame:
  "length (violations s) \<le> length (violations (check_violations s acs t)) \<and>
   (\<forall>k < length (violations s).
      same_observation (violations s ! k) (violations (check_violations s acs t) ! k)) \<and>
   near_misses (check_violations s acs t) = near_misses s"
proof -
  obtain cur' s' where r: "scan_violations acs t ({}, s) (index_pairs (length acs)) = (cur', s')"
    by (cases "scan_violations acs t ({}, s) (index_pairs (length acs))")
  from scan_frame [OF r] show ?thesis
    unfolding check_violations_scan [OF r] by simp
qed

lemma check_violations_dom:
  "dom (active_violations (check_violations s acs t)) =
     violating_keys acs (index_pairs (length acs))"
proof -
  obtain cur' s' where r: "scan_violations acs t ({}, s) (index_pairs (length acs)) = (cur', s')"
    by (cases "scan_violations acs t ({}, s) (index_pairs (length acs))")
  have "dom (active_violations s') =
      dom (active_violations s) \<union> violating_keys acs (index_pairs (length acs))"
    using scan_dom [of acs t "{}" s "index_pairs (length acs)"] r by simp
  then show ?thesis
    unfolding check_violations_scan [OF r] by auto
qed

lemma check_violations_pair:
  assumes d: "distinct (map callsign acs)" and w: "wf_active s"
    and ij: "i < j" "j < length acs" and v: "\<not> is_separated (acs ! i) (acs ! j)"
  shows "(\<forall>idx. active_violations s (pair_key (callsign (acs ! i)) (callsign (acs ! j))) = Some idx \<longrightarrow>
            active_violations (check_violations s acs t)
              (pair_key (callsign (acs ! i)) (callsign (acs ! j))) = Some idx \<and>
            violations (check_violations s acs t) ! idx =
              (violations s ! idx)\<lparr>v_duration := v_duration (violations s ! idx) + 1\<rparr>) \<and>
         (active_violations s (pair_key (callsign (acs ! i)) (callsign (acs ! j))) = None \<longrightarrow>
            (\<exists>idx. length (violations s) \<le> idx \<and>
               active_violations (check_violations s acs t)
                 (pair_key (callsign (acs ! i)) (callsign (acs ! j))) = Some idx \<and>
               violations (check_violations s acs t) ! idx = observed_violation acs t i j))"
proof -
  obtain cur' s' where r: "scan_violations acs t ({}, s) (index_pairs (length acs)) = (cur', s')"
    by (cases "scan_violations acs t ({}, s) (index_pairs (length acs))")
  have p: "(i, j) \<in> set (index_pairs (length acs))" using ij by (simp add: mem_index_pairs)
  have vp: "violating acs (i, j)" using v by (simp add: violating_def)
  have k: "key_of acs (i, j) = pair_key (callsign (acs ! i)) (callsign (acs ! j))"
    by (simp add: key_of_def)
  have "key_of acs (i, j) \<in> violating_keys acs (index_pairs (length acs))"
    using p vp by (auto simp: violating_keys_def)
  then have a: "active_violations (check_violations s acs t) (key_of acs (i, j)) =
      active_violations s' (key_of acs (i, j))"
    unfolding check_violations_scan [OF r] by simp
  have b: "violations (check_violations s acs t) = violations s'"
    unfolding check_violations_scan [OF r] by simp
  from scan_pair [OF d w p vp r] show ?thesis
    unfolding a [unfolded k] b k by simp
qed

lemma wf_mk: "wf_active (mk_SafetyEvaluator asp)"
  by (simp add: wf_active_def mk_SafetyEvaluator_def)

lemma trailing_facts:
  "distance_to (position boundary_a) (position (trailing_ac d)) = \<bar>d\<bar>"
  "vertical_separation (position boundary_a) (position (trailing_ac d)) = 0"
  "callsign boundary_a = ''A''" "callsign (trailing_ac d) = ''D''"
  "pair_avg_altitude boundary_a (trailing_ac d) = 10000"
  by (simp_all add: distance_to_same_y vertical_separation_def pair_avg_altitude_def
        boundary_a_def trailing_ac_def mk_Aircraft_def)

lemma trailing_violating: "\<bar>d\<bar> < 5 \<Longrightarrow> \<not> is_separated boundary_a (trailing_ac d)"
  using is_separated_def [of boundary_a "trailing_ac d"]
  by (simp add: check_separation_def trailing_facts standard_def Let_def
        pair_avg_altitude_def [symmetric])

lemma key_A_D: "pair_key ''A'' ''D'' = (''A'', ''D'')"
  by (simp add: pair_key_def)

lemma trailing_distinct: "distinct (map callsign [boundary_a, trailing_ac d])"
  by (simp add: trailing_facts)

lemma index_pairs_two: "index_pairs (Suc (Suc 0)) = [(0, Suc 0)]"
  using index_pairs_2 by (simp add: numeral_2_eq_2)

lemma one_tick_eval:
  "violations one_tick = [observed_violation [boundary_a, trailing_ac 3] 0 0 1]"
  "active_violations one_tick (''A'', ''D'') = Some 0"
proof -
  have v: "violating [boundary_a, trailing_ac 3] (0, 1)"
    by (simp add: violating_def trailing_violating)
  have k: "key_of [boundary_a, trailing_ac 3] (0, 1) = (''A'', ''D'')"
    by (simp add: key_of_def trailing_facts key_A_D)
  have s: "scan_violations [boundary_a, trailing_ac 3] 0 ({}, mk_SafetyEvaluator mk_Airspace)
             (index_pairs (length [boundary_a, trailing_ac 3])) =
           ({(''A'', ''D'')},
            (mk_SafetyEvaluator mk_Airspace)
              \<lparr>active_violations := [(''A'', ''D'') \<mapsto> 0],
               violations := [observed_violation [boundary_a, trailing_ac 3] 0 0 1]\<rparr>)"
    using violation_step_eq [of "[boundary_a, trailing_ac 3]" 0 "{}"
        "mk_SafetyEvaluator mk_Airspace" "(0, 1)"] v k
    by (simp add: index_pairs_two scan_violations_def mk_SafetyEvaluator_def)
  have vk: "violating_keys [boundary_a, trailing_ac 3]
      (index_pairs (length [boundary_a, trailing_ac 3])) = {(''A'', ''D'')}"
    using v k by (simp add: index_pairs_two)
  show "violations one_tick = [observed_violation [boundary_a, trailing_ac 3] 0 0 1]"
    unfolding one_tick_def check_violations_scan [OF s] by simp
  show "active_violations one_tick (''A'', ''D'') = Some 0"
    unfolding one_tick_def check_violations_scan [OF s] vk by simp
qed

lemma one_tick_wf: "wf_active one_tick"
  unfolding one_tick_def by (rule check_violations_wf) (rule wf_mk)

section \<open>Claims about the safety monitor\<close>

text \<open>
  C5. The claim: while a pair stays in violation, its record holds the horizontal and
  the vertical separation measured on the latest tick. The record is written once, when
  the pair is first found violating; on a later tick only its duration grows. A pair
  3 NM apart on the first tick and 2 NM apart on the second has a record of 3 NM after
  the second.
\<close>

theorem violation_record_not_last_observed:
  "\<not> is_separated boundary_a (trailing_ac 3) \<and> \<not> is_separated boundary_a (trailing_ac 2) \<and>
   active_violations two_ticks (pair_key ''A'' ''D'') = Some 0 \<and>
   fst (check_separation boundary_a (trailing_ac 2)) = 2 \<and>
   v_horizontal_separation (violations two_ticks ! 0) = 3 \<and>
   v_horizontal_separation (violations two_ticks ! 0)
     \<noteq> fst (check_separation boundary_a (trailing_ac 2))"
proof -
  have p: "(\<forall>idx. active_violations one_tick (''A'', ''D'') = Some idx \<longrightarrow>
            active_violations two_ticks (''A'', ''D'') = Some idx \<and>
            violations two_ticks ! idx =
              (violations one_tick ! idx)\<lparr>v_duration := v_duration (violations one_tick ! idx) + 1\<rparr>)"
    using check_violations_pair [of "[boundary_a, trailing_ac 2]" one_tick 0 1 1]
      trailing_distinct [of 2] one_tick_wf trailing_violating [of 2]
    by (simp add: two_ticks_def trailing_facts key_A_D)
  with one_tick_eval have a: "active_violations two_ticks (''A'', ''D'') = Some 0"
    and r: "violations two_ticks ! 0 =
      (observed_violation [boundary_a, trailing_ac 3] 0 0 1)\<lparr>v_duration := 1\<rparr>"
    by (simp_all add: observed_violation_def)
  have h: "v_horizontal_separation (violations two_ticks ! 0) = 3"
    unfolding r by (simp add: observed_violation_def trailing_facts)
  have m: "fst (check_separation boundary_a (trailing_ac 2)) = 2"
    by (simp add: check_separation_def trailing_facts)
  from a h m trailing_violating [of 3] trailing_violating [of 2] show ?thesis
    by (simp add: key_A_D)
qed

text \<open>
  C5, as amended. A scan of \<open>_check_violations\<close> leaves in every record of the history
  the callsigns, the time stamp, the two separations and the severity as they are, and
  does not lower the duration. For a pair found violating, with callsigns that are
  unique in the list: if its key is active, the key stays on its record and the record
  only gains 1 of duration; if its key is not active, the key is put on a new record,
  which holds the time of this tick, the two separations measured on this tick and the
  duration 0. So the record holds the separations of the tick that first found the
  pair violating.
\<close>

theorem violation_record_keeps_first_observation:
  "(k < length (violations self) \<longrightarrow>
      k < length (violations (check_violations self acs t)) \<and>
      same_observation (violations self ! k) (violations (check_violations self acs t) ! k)) \<and>
   (wf_active self \<longrightarrow> wf_active (check_violations self acs t)) \<and>
   wf_active (mk_SafetyEvaluator asp) \<and>
   (distinct (map callsign acs) \<and> wf_active self \<and> i < j \<and> j < length acs \<and>
    \<not> is_separated (acs ! i) (acs ! j) \<longrightarrow>
      (\<forall>idx. active_violations self (pair_key (callsign (acs ! i)) (callsign (acs ! j))) = Some idx \<longrightarrow>
         active_violations (check_violations self acs t)
           (pair_key (callsign (acs ! i)) (callsign (acs ! j))) = Some idx \<and>
         violations (check_violations self acs t) ! idx =
           (violations self ! idx)\<lparr>v_duration := v_duration (violations self ! idx) + 1\<rparr>) \<and>
      (active_violations self (pair_key (callsign (acs ! i)) (callsign (acs ! j))) = None \<longrightarrow>
         (\<exists>idx. length (violations self) \<le> idx \<and>
            active_violations (check_violations self acs t)
              (pair_key (callsign (acs ! i)) (callsign (acs ! j))) = Some idx \<and>
            violations (check_violations self acs t) ! idx = observed_violation acs t i j)))"
proof (intro conjI impI)
  assume "k < length (violations self)"
  with check_violations_frame [of self acs t]
  show "k < length (violations (check_violations self acs t))"
    "same_observation (violations self ! k) (violations (check_violations self acs t) ! k)"
    by auto
next
  assume "wf_active self"
  then show "wf_active (check_violations self acs t)" by (rule check_violations_wf)
next
  show "wf_active (mk_SafetyEvaluator asp)" by (rule wf_mk)
next
  assume a: "distinct (map callsign acs) \<and> wf_active self \<and> i < j \<and> j < length acs \<and>
    \<not> is_separated (acs ! i) (acs ! j)"
  then have d: "distinct (map callsign acs)" and w: "wf_active self" and ij: "i < j" "j < length acs"
    and v: "\<not> is_separated (acs ! i) (acs ! j)" by simp_all
  note r = check_violations_pair [OF d w ij v, of t]
  from r show "\<forall>idx. active_violations self (pair_key (callsign (acs ! i)) (callsign (acs ! j))) = Some idx \<longrightarrow>
         active_violations (check_violations self acs t)
           (pair_key (callsign (acs ! i)) (callsign (acs ! j))) = Some idx \<and>
         violations (check_violations self acs t) ! idx =
           (violations self ! idx)\<lparr>v_duration := v_duration (violations self ! idx) + 1\<rparr>"
    by blast
  assume "active_violations self (pair_key (callsign (acs ! i)) (callsign (acs ! j))) = None"
  with r show "\<exists>idx. length (violations self) \<le> idx \<and>
            active_violations (check_violations self acs t)
              (pair_key (callsign (acs ! i)) (callsign (acs ! j))) = Some idx \<and>
            violations (check_violations self acs t) ! idx = observed_violation acs t i j"
    by blast
qed

theorem violation_record_keeps_first_observation_witness:
  "wf_active one_tick \<and>
   active_violations two_ticks (''A'', ''D'') = Some 0 \<and>
   violations two_ticks ! 0 = (violations one_tick ! 0)\<lparr>v_duration := 1\<rparr> \<and>
   v_horizontal_separation (violations two_ticks ! 0) = 3 \<and>
   v_timestamp (violations two_ticks ! 0) = 0 \<and>
   same_observation (violations one_tick ! 0) (violations two_ticks ! 0)"
proof -
  note a = violation_record_keeps_first_observation
      [of 0 "mk_SafetyEvaluator mk_Airspace" "[boundary_a, trailing_ac 3]" 0 mk_Airspace 0 1]
  note b = violation_record_keeps_first_observation
      [of 0 one_tick "[boundary_a, trailing_ac 2]" 1 mk_Airspace 0 1]
  from a have w: "wf_active one_tick" by (simp add: one_tick_def)
  have l: "0 < length (violations one_tick)" by (simp add: one_tick_eval)
  have d1: "v_duration (violations one_tick ! 0) = 0"
    by (simp add: one_tick_eval observed_violation_def)
  from b w trailing_violating [of 2] one_tick_eval(2)
  have 1: "active_violations two_ticks (''A'', ''D'') = Some 0"
    and 2: "violations two_ticks ! 0 = (violations one_tick ! 0)\<lparr>v_duration := 1\<rparr>"
    by (simp_all add: two_ticks_def trailing_facts key_A_D d1)
  from b l have 3: "same_observation (violations one_tick ! 0) (violations two_ticks ! 0)"
    by (simp add: two_ticks_def)
  have 4: "v_horizontal_separation (violations two_ticks ! 0) = 3"
    "v_timestamp (violations two_ticks ! 0) = 0"
    unfolding 2 by (simp_all add: one_tick_eval observed_violation_def trailing_facts)
  from w 1 2 3 4 show ?thesis by simp
qed

lemma near_miss_step_eq:
  "near_miss_step acs t s (fst p) (snd p) =
     (case near_miss_of acs t p of
        Some nm \<Rightarrow> s\<lparr>near_misses := near_misses s @ [nm]\<rparr>
      | None \<Rightarrow> s)"
  by (simp add: near_miss_step_def near_miss_of_def separation_ratio_def check_separation_def
        vertical_separation_def pair_avg_altitude_def NEAR_MISS_THRESHOLD_def Let_def)

lemma foldl_near_misses:
  "foldl (\<lambda>s p. near_miss_step acs t s (fst p) (snd p)) s ps =
     s\<lparr>near_misses := near_misses s @ List.map_filter (near_miss_of acs t) ps\<rparr>"
proof (induction ps arbitrary: s)
  case Nil
  then show ?case by (simp add: List.map_filter_simps)
next
  case (Cons p ps)
  have "foldl (\<lambda>s p. near_miss_step acs t s (fst p) (snd p)) s (p # ps) =
      (near_miss_step acs t s (fst p) (snd p))
        \<lparr>near_misses := near_misses (near_miss_step acs t s (fst p) (snd p)) @
           List.map_filter (near_miss_of acs t) ps\<rparr>"
    by (simp add: Cons.IH)
  then show ?case
    by (cases "near_miss_of acs t p") (simp_all add: near_miss_step_eq List.map_filter_simps)
qed

lemma check_near_misses_eq:
  "check_near_misses s acs t =
     s\<lparr>near_misses := near_misses s @
          List.map_filter (near_miss_of acs t) (index_pairs (length acs))\<rparr>"
  by (simp add: check_near_misses_def for_pairs_foldl foldl_near_misses)

lemma safety_update_near_misses:
  "near_misses (safety_update self acs t atc) =
     near_misses self @ List.map_filter (near_miss_of acs t) (index_pairs (length acs))"
  using check_violations_frame
  by (simp add: safety_update_def Let_def check_near_misses_eq split: option.split)

lemma safety_update_active:
  "dom (active_violations (safety_update self acs t atc)) =
     violating_keys acs (index_pairs (length acs))"
  by (simp add: safety_update_def Let_def check_near_misses_eq check_violations_dom
        split: option.split)

lemma violating_keys_pairs:
  "violating_keys acs (index_pairs n) =
     {pair_key (callsign (acs ! i)) (callsign (acs ! j)) | i j.
        i < j \<and> j < n \<and> \<not> is_separated (acs ! i) (acs ! j)}"
proof -
  have "{p \<in> set (index_pairs n). violating acs p} =
      {(i, j) | i j. i < j \<and> j < n \<and> \<not> is_separated (acs ! i) (acs ! j)}"
    by (auto simp: mem_index_pairs violating_def)
  then have "violating_keys acs (index_pairs n) =
      key_of acs ` {(i, j) | i j. i < j \<and> j < n \<and> \<not> is_separated (acs ! i) (acs ! j)}"
    by (simp add: violating_keys_def)
  also have "\<dots> = {pair_key (callsign (acs ! i)) (callsign (acs ! j)) | i j.
        i < j \<and> j < n \<and> \<not> is_separated (acs ! i) (acs ! j)}"
    by (auto simp: key_of_def image_iff; blast)
  finally show ?thesis .
qed

lemma near_miss_not_violating:
  assumes d: "distinct (map callsign acs)"
    and nm: "nm \<in> set (List.map_filter (near_miss_of acs t) (index_pairs (length acs)))"
  shows "pair_key (nm_aircraft1 nm) (nm_aircraft2 nm) \<notin> violating_keys acs (index_pairs (length acs))"
proof
  assume k: "pair_key (nm_aircraft1 nm) (nm_aircraft2 nm)
      \<in> violating_keys acs (index_pairs (length acs))"
  from nm obtain p where p: "p \<in> set (index_pairs (length acs))"
    and n: "near_miss_of acs t p = Some nm"
    by (auto simp: List.map_filter_def)
  from n have s: "is_separated (acs ! fst p) (acs ! snd p)"
    and e: "pair_key (nm_aircraft1 nm) (nm_aircraft2 nm) = key_of acs p"
    by (auto simp: near_miss_of_def key_of_def split: if_splits)
  from k e obtain q where q: "q \<in> set (index_pairs (length acs))" "violating acs q"
    "key_of acs q = key_of acs p"
    by (auto simp: violating_keys_def)
  from key_of_inj [OF d q(1) p q(3)] q(2) s show False
    by (simp add: violating_def)
qed

text \<open>
  C6. An update of the monitor appends a near miss for each pair \<open>i < j\<close> that is
  separated and whose separation ratio is below 1.5, and for no other pair. The keys
  active after the update are those of the pairs found violating on this tick. No pair
  of aircraft is both; and with callsigns that are unique in the list, no near miss of
  the tick names the two callsigns of an active key.
\<close>

theorem near_misses_only_for_separated_pairs:
  "near_misses (safety_update self acs t atc) =
     near_misses self @ List.map_filter (near_miss_of acs t) (index_pairs (length acs)) \<and>
   (near_miss_of acs t (i, j) \<noteq> None \<longleftrightarrow>
      is_separated (acs ! i) (acs ! j) \<and>
      xless (separation_ratio (acs ! i) (acs ! j)) (Fin 1.5)) \<and>
   dom (active_violations (safety_update self acs t atc)) =
     violating_keys acs (index_pairs (length acs)) \<and>
   violating_keys acs (index_pairs n) =
     {pair_key (callsign (acs ! i')) (callsign (acs ! j')) | i' j'.
        i' < j' \<and> j' < n \<and> \<not> is_separated (acs ! i') (acs ! j')} \<and>
   \<not> (near_miss_of acs t (i, j) \<noteq> None \<and> violating acs (i, j)) \<and>
   (distinct (map callsign acs) \<longrightarrow>
      (\<forall>nm \<in> set (List.map_filter (near_miss_of acs t) (index_pairs (length acs))).
         pair_key (nm_aircraft1 nm) (nm_aircraft2 nm)
           \<notin> dom (active_violations (safety_update self acs t atc))))"
proof (intro conjI impI ballI)
  show "near_misses (safety_update self acs t atc) =
     near_misses self @ List.map_filter (near_miss_of acs t) (index_pairs (length acs))"
    by (rule safety_update_near_misses)
  show "near_miss_of acs t (i, j) \<noteq> None \<longleftrightarrow>
      is_separated (acs ! i) (acs ! j) \<and>
      xless (separation_ratio (acs ! i) (acs ! j)) (Fin 1.5)"
    by (simp add: near_miss_of_def)
  show "dom (active_violations (safety_update self acs t atc)) =
     violating_keys acs (index_pairs (length acs))"
    by (rule safety_update_active)
  show "violating_keys acs (index_pairs n) =
     {pair_key (callsign (acs ! i')) (callsign (acs ! j')) | i' j'.
        i' < j' \<and> j' < n \<and> \<not> is_separated (acs ! i') (acs ! j')}"
    by (rule violating_keys_pairs)
  show "\<not> (near_miss_of acs t (i, j) \<noteq> None \<and> violating acs (i, j))"
    by (simp add: near_miss_of_def violating_def)
next
  fix nm
  assume "distinct (map callsign acs)"
    and "nm \<in> set (List.map_filter (near_miss_of acs t) (index_pairs (length acs)))"
  then show "pair_key (nm_aircraft1 nm) (nm_aircraft2 nm)
           \<notin> dom (active_violations (safety_update self acs t atc))"
    unfolding safety_update_active by (rule near_miss_not_violating)
qed

lemma index_pairs_three: "index_pairs (Suc (Suc (Suc 0))) = [(0, Suc 0), (0, Suc (Suc 0)), (Suc 0, Suc (Suc 0))]"
  by (simp add: index_pairs_def upt_rec)

lemma encounter_facts:
  "is_separated boundary_a boundary_b"
  "separation_ratio boundary_a boundary_b = Fin 1"
  "\<not> is_separated boundary_a (trailing_ac 3)"
  "is_separated boundary_b (trailing_ac 3)"
  "separation_ratio boundary_b (trailing_ac 3) = Fin 0.4"
  "callsign boundary_b = ''B''"
proof -
  have b: "distance_to (position boundary_a) (position boundary_b) = 5"
    "vertical_separation (position boundary_a) (position boundary_b) = 1000"
    "pair_avg_altitude boundary_a boundary_b = 10500"
    by (simp_all add: distance_to_same_y vertical_separation_def pair_avg_altitude_def
          boundary_a_def boundary_b_def mk_Aircraft_def)
  have c: "distance_to (position boundary_b) (position (trailing_ac 3)) = 2"
    "vertical_separation (position boundary_b) (position (trailing_ac 3)) = 1000"
    "pair_avg_altitude boundary_b (trailing_ac 3) = 10500"
    by (simp_all add: distance_to_same_y vertical_separation_def pair_avg_altitude_def
          trailing_ac_def boundary_b_def mk_Aircraft_def)
  show "is_separated boundary_a boundary_b"
    using is_separated_def [of boundary_a boundary_b]
    by (simp add: check_separation_def b standard_def Let_def pair_avg_altitude_def [symmetric])
  show "separation_ratio boundary_a boundary_b = Fin 1"
    by (simp add: separation_ratio_def b standard_def xmin_def)
  show "\<not> is_separated boundary_a (trailing_ac 3)"
    by (simp add: trailing_violating)
  show "is_separated boundary_b (trailing_ac 3)"
    using is_separated_def [of boundary_b "trailing_ac 3"]
    by (simp add: check_separation_def c standard_def Let_def pair_avg_altitude_def [symmetric])
  show "separation_ratio boundary_b (trailing_ac 3) = Fin 0.4"
    by (simp add: separation_ratio_def c standard_def xmin_def)
  show "callsign boundary_b = ''B''"
    by (simp add: boundary_b_def mk_Aircraft_def)
qed

theorem near_misses_only_for_separated_pairs_witness:
  "map (\<lambda>nm. (nm_aircraft1 nm, nm_aircraft2 nm, min_separation_ratio nm))
     (near_misses (safety_update (mk_SafetyEvaluator mk_Airspace) encounter 0 None)) =
     [(''A'', ''B'', Fin 1), (''B'', ''D'', Fin 0.4)] \<and>
   dom (active_violations (safety_update (mk_SafetyEvaluator mk_Airspace) encounter 0 None)) =
     {(''A'', ''D'')} \<and>
   pair_key ''A'' ''B''
     \<notin> dom (active_violations (safety_update (mk_SafetyEvaluator mk_Airspace) encounter 0 None)) \<and>
   pair_key ''B'' ''D''
     \<notin> dom (active_violations (safety_update (mk_SafetyEvaluator mk_Airspace) encounter 0 None))"
proof -
  note a = near_misses_only_for_separated_pairs
      [of "mk_SafetyEvaluator mk_Airspace" encounter 0 None 0 1 3]
  have l: "length encounter = Suc (Suc (Suc 0))" by (simp add: encounter_def)
  have n: "encounter ! 0 = boundary_a" "encounter ! Suc 0 = boundary_b"
    "encounter ! Suc (Suc 0) = trailing_ac 3"
    by (simp_all add: encounter_def)
  have mf: "List.map_filter (near_miss_of encounter 0) (index_pairs (length encounter)) =
      [the (near_miss_of encounter 0 (0, Suc 0)), the (near_miss_of encounter 0 (Suc 0, Suc (Suc 0)))]"
    by (simp add: l index_pairs_three List.map_filter_simps near_miss_of_def n encounter_facts)
  have nm1: "the (near_miss_of encounter 0 (0, Suc 0)) =
      \<lparr>nm_aircraft1 = ''A'', nm_aircraft2 = ''B'', nm_timestamp = 0,
       nm_horizontal_separation = distance_to (position boundary_a) (position boundary_b),
       nm_vertical_separation = vertical_separation (position boundary_a) (position boundary_b),
       min_separation_ratio = Fin 1\<rparr>"
    by (simp add: near_miss_of_def n encounter_facts trailing_facts)
  have nm2: "the (near_miss_of encounter 0 (Suc 0, Suc (Suc 0))) =
      \<lparr>nm_aircraft1 = ''B'', nm_aircraft2 = ''D'', nm_timestamp = 0,
       nm_horizontal_separation = distance_to (position boundary_b) (position (trailing_ac 3)),
       nm_vertical_separation = vertical_separation (position boundary_b) (position (trailing_ac 3)),
       min_separation_ratio = Fin 0.4\<rparr>"
    by (simp add: near_miss_of_def n encounter_facts trailing_facts)
  have d: "distinct (map callsign encounter)"
    by (simp add: encounter_def encounter_facts trailing_facts)
  have vk: "violating_keys encounter (index_pairs (length encounter)) = {(''A'', ''D'')}"
    by (simp add: l index_pairs_three violating_def n encounter_facts key_of_def trailing_facts
          key_A_D)
  from a have 1: "near_misses (safety_update (mk_SafetyEvaluator mk_Airspace) encounter 0 None) =
      [the (near_miss_of encounter 0 (0, Suc 0)), the (near_miss_of encounter 0 (Suc 0, Suc (Suc 0)))]"
    by (simp add: mf mk_SafetyEvaluator_def)
  from a have 2: "dom (active_violations (safety_update (mk_SafetyEvaluator mk_Airspace) encounter 0 None)) =
     {(''A'', ''D'')}"
    by (simp add: vk)
  from a d have 3: "\<forall>nm \<in> set [the (near_miss_of encounter 0 (0, Suc 0)),
        the (near_miss_of encounter 0 (Suc 0, Suc (Suc 0)))].
      pair_key (nm_aircraft1 nm) (nm_aircraft2 nm)
        \<notin> dom (active_violations (safety_update (mk_SafetyEvaluator mk_Airspace) encounter 0 None))"
    unfolding mf by blast
  from 3 have 4: "pair_key ''A'' ''B''
     \<notin> dom (active_violations (safety_update (mk_SafetyEvaluator mk_Airspace) encounter 0 None))"
    "pair_key ''B'' ''D''
     \<notin> dom (active_violations (safety_update (mk_SafetyEvaluator mk_Airspace) encounter 0 None))"
    by (simp_all add: nm1 nm2)
  from 1 2 4 show ?thesis by (simp add: nm1 nm2)
qed

section \<open>The limits under the kinematic update\<close>

text \<open>
  What does hold of the limits: an update and the three instructions keep an aircraft and
  its pending targets within the limits, provided the altitudes that its flight plan asks
  for are within the altitude limits. The aircraft \<open>snap_aircraft\<close> fails that
  proviso only.
\<close>

lemma py_mod_360: "0 \<le> py_mod a 360 \<and> py_mod a 360 < 360"
proof -
  have 1: "of_int \<lfloor>a / 360\<rfloor> \<le> a / 360" by (rule of_int_floor_le)
  have 2: "a / 360 < of_int \<lfloor>a / 360\<rfloor> + 1" by linarith
  from 1 have "360 * of_int \<lfloor>a / 360\<rfloor> \<le> a" by linarith
  moreover from 2 have "a < 360 * of_int \<lfloor>a / 360\<rfloor> + 360" by linarith
  ultimately show ?thesis by (simp add: py_mod_def)
qed

lemma update_altitude_limits:
  assumes "MIN_ALTITUDE \<le> pos_altitude (position a)" "pos_altitude (position a) \<le> MAX_ALTITUDE"
    and "\<And>alt. target_altitude a = Some alt \<Longrightarrow> MIN_ALTITUDE \<le> alt \<and> alt \<le> MAX_ALTITUDE"
    and "plan_within_limits a"
  shows "MIN_ALTITUDE \<le> pos_altitude (position (update_altitude a dt)) \<and>
         pos_altitude (position (update_altitude a dt)) \<le> MAX_ALTITUDE \<and>
         (\<forall>alt. target_altitude (update_altitude a dt) = Some alt \<longrightarrow>
            MIN_ALTITUDE \<le> alt \<and> alt \<le> MAX_ALTITUDE)"
proof (cases "target_altitude a")
  case None
  show ?thesis
  proof (cases "current_waypoint_index a < length (flight_plan a)")
    case False
    with None assms show ?thesis by (simp add: update_altitude_def)
  next
    case True
    then have "flight_plan a ! current_waypoint_index a \<in> set (flight_plan a)" by simp
    with assms(4) have "\<And>alt. wp_altitude (flight_plan a ! current_waypoint_index a) = Some alt
        \<Longrightarrow> MIN_ALTITUDE \<le> alt \<and> alt \<le> MAX_ALTITUDE"
      unfolding plan_within_limits_def by blast
    with None True assms(1,2) show ?thesis
      by (auto simp: update_altitude_def split: option.split)
  qed
next
  case (Some tgt)
  with assms(3) have "MIN_ALTITUDE \<le> tgt \<and> tgt \<le> MAX_ALTITUDE" by simp
  with Some assms(1,2) show ?thesis
    by (simp add: update_altitude_def Let_def limits_defs)
qed

lemma update_heading_limits:
  assumes "0 \<le> heading (velocity a)" "heading (velocity a) < 360"
    and "\<And>hdg. target_heading a = Some hdg \<Longrightarrow> 0 \<le> hdg \<and> hdg < 360"
  shows "0 \<le> heading (velocity (update_heading a dt)) \<and>
         heading (velocity (update_heading a dt)) < 360 \<and>
         (\<forall>hdg. target_heading (update_heading a dt) = Some hdg \<longrightarrow> 0 \<le> hdg \<and> hdg < 360)"
proof (cases "target_heading a")
  case None
  with assms(1,2) show ?thesis
    by (simp add: update_heading_def calculate_heading_to_waypoint_def py_mod_360 Let_def)
next
  case (Some tgt)
  with assms(3) have "0 \<le> tgt \<and> tgt < 360" by simp
  with Some assms(1,2) show ?thesis
    by (simp add: update_heading_def normalize_heading_def py_mod_360 Let_def)
qed

lemma update_speed_limits:
  assumes "MIN_SPEED \<le> speed (velocity a)" "speed (velocity a) \<le> MAX_SPEED"
    and "\<And>spd. target_speed a = Some spd \<Longrightarrow> MIN_SPEED \<le> spd \<and> spd \<le> MAX_SPEED"
  shows "MIN_SPEED \<le> speed (velocity (update_speed a dt)) \<and>
         speed (velocity (update_speed a dt)) \<le> MAX_SPEED \<and>
         (\<forall>spd. target_speed (update_speed a dt) = Some spd \<longrightarrow>
            MIN_SPEED \<le> spd \<and> spd \<le> MAX_SPEED)"
proof (cases "target_speed a")
  case None
  with assms(1,2) show ?thesis by (simp add: update_speed_def)
next
  case (Some tgt)
  with assms(3) have "MIN_SPEED \<le> tgt \<and> tgt \<le> MAX_SPEED" by simp
  with Some assms(1,2) show ?thesis
    by (simp add: update_speed_def Let_def limits_defs)
qed

lemma update_keeps_limits:
  assumes w: "within_limits a" and tg: "targets_within_limits a" and pl: "plan_within_limits a"
  shows "within_limits (update a dt) \<and> targets_within_limits (update a dt) \<and>
         plan_within_limits (update a dt)"
proof -
  let ?a0 = "a\<lparr>time_in_simulation := time_in_simulation a + dt\<rparr>"
  let ?a1 = "update_altitude ?a0 dt"
  let ?a2 = "update_heading ?a1 dt"
  have p0: "plan_within_limits ?a0" using pl by (simp add: plan_within_limits_def)
  have alt: "MIN_ALTITUDE \<le> pos_altitude (position ?a1) \<and>
         pos_altitude (position ?a1) \<le> MAX_ALTITUDE \<and>
         (\<forall>alt. target_altitude ?a1 = Some alt \<longrightarrow> MIN_ALTITUDE \<le> alt \<and> alt \<le> MAX_ALTITUDE)"
    using w tg by (intro update_altitude_limits p0) (simp_all add: within_limits_def targets_within_limits_def)
  have hdg: "0 \<le> heading (velocity ?a2) \<and> heading (velocity ?a2) < 360 \<and>
         (\<forall>hdg. target_heading ?a2 = Some hdg \<longrightarrow> 0 \<le> hdg \<and> hdg < 360)"
    using w tg by (intro update_heading_limits) (simp_all add: within_limits_def targets_within_limits_def)
  have spd: "MIN_SPEED \<le> speed (velocity (update_speed ?a0 dt)) \<and>
         speed (velocity (update_speed ?a0 dt)) \<le> MAX_SPEED \<and>
         (\<forall>spd. target_speed (update_speed ?a0 dt) = Some spd \<longrightarrow>
            MIN_SPEED \<le> spd \<and> spd \<le> MAX_SPEED)"
    using w tg by (intro update_speed_limits) (simp_all add: within_limits_def targets_within_limits_def)
  have fp: "flight_plan (update a dt) = flight_plan a"
    by (simp add: update_def Let_def)
  show ?thesis
    unfolding within_limits_def targets_within_limits_def plan_within_limits_def fp
      update_altitude_eq update_heading_eq update_speed_eq
    using alt hdg spd pl by (simp add: plan_within_limits_def)
qed

lemma instructions_keep_limits:
  assumes "within_limits a \<and> targets_within_limits a \<and> plan_within_limits a"
  shows "within_limits (set_altitude a x) \<and> targets_within_limits (set_altitude a x) \<and>
           plan_within_limits (set_altitude a x)"
    and "within_limits (set_heading a x) \<and> targets_within_limits (set_heading a x) \<and>
           plan_within_limits (set_heading a x)"
    and "within_limits (set_speed a x) \<and> targets_within_limits (set_speed a x) \<and>
           plan_within_limits (set_speed a x)"
  using assms py_mod_360 [of x]
  by (simp_all add: within_limits_def targets_within_limits_def plan_within_limits_def
        set_altitude_def set_heading_def set_speed_def limits_defs)

lemma snap_aircraft_plan: "\<not> plan_within_limits snap_aircraft \<and> targets_within_limits snap_aircraft"
  by (simp add: plan_within_limits_def targets_within_limits_def snap_aircraft_def mk_Aircraft_def
        limits_defs)

end
